theory Spec2Isabelle
  imports Main
begin

section \<open>Python strings\<close>

text \<open>
  A Python \<open>str\<close> is a sequence of Unicode code points. The strip set of the title
  parser holds the bullet U+2022, which is no 8-bit character, so a character is modelled
  by its code point and a string by the list of its code points. \<open>str\<close> embeds an ASCII
  literal.
\<close>

type_synonym pychar = nat
type_synonym pystr = "nat list"

definition str :: "string \<Rightarrow> pystr" where
  "str s = map of_char s"

abbreviation NL :: pychar where "NL \<equiv> 10"
abbreviation VT :: pychar where "VT \<equiv> 11"
abbreviation colon :: pychar where "colon \<equiv> 58"

text \<open>
  \<open>str.isspace\<close> of one character: the code points on which CPython's
  \<open>Py_UNICODE_ISSPACE\<close> holds. \<open>s.strip()\<close> without argument removes these from
  both ends.
\<close>

definition isspace :: "pychar \<Rightarrow> bool" where
  "isspace c \<longleftrightarrow>
     c \<in> set [9, 10, 11, 12, 13, 28, 29, 30, 31, 32, 133, 160, 5760,
              8192, 8193, 8194, 8195, 8196, 8197, 8198, 8199, 8200, 8201, 8202,
              8232, 8233, 8239, 8287, 12288]"

text \<open>\<open>s.lstrip\<close>, \<open>s.rstrip\<close> and \<open>s.strip\<close> over a predicate on characters.\<close>

definition lstrip_with :: "(pychar \<Rightarrow> bool) \<Rightarrow> pystr \<Rightarrow> pystr" where
  "lstrip_with p s = dropWhile p s"

definition rstrip_with :: "(pychar \<Rightarrow> bool) \<Rightarrow> pystr \<Rightarrow> pystr" where
  "rstrip_with p s = rev (dropWhile p (rev s))"

definition strip_with :: "(pychar \<Rightarrow> bool) \<Rightarrow> pystr \<Rightarrow> pystr" where
  "strip_with p s = rstrip_with p (lstrip_with p s)"

text \<open>\<open>s.strip()\<close>: whitespace off both ends.\<close>

definition strip :: "pystr \<Rightarrow> pystr" where
  "strip s = strip_with isspace s"

text \<open>\<open>s.strip(chars)\<close>: every leading and trailing character that occurs in \<open>chars\<close>.\<close>

definition strip_chars :: "pystr \<Rightarrow> pystr \<Rightarrow> pystr" where
  "strip_chars chars s = strip_with (\<lambda>c. c \<in> set chars) s"

text \<open>
  \<open>s.split(sep)\<close> for a separator of one character, the only kind the program uses
  (\<open>"\n"\<close> and \<open>":"\<close>): the pieces between the separators, empty pieces kept, so the
  result has one element more than \<open>s\<close> has separators and is never empty.
\<close>

fun split :: "pychar \<Rightarrow> pystr \<Rightarrow> pystr list" where
  "split sep [] = [[]]"
| "split sep (c # cs) =
     (if c = sep then [] # split sep cs
      else (case split sep cs of
              [] \<Rightarrow> [[c]]
            | w # ws \<Rightarrow> (c # w) # ws))"

section \<open>Errors, providers and user interface\<close>

text \<open>
  Every exception the modelled code can meet. \<open>BackendError\<close> is any \<open>Exception\<close>
  raised by a text-generation backend (import, client construction, network, quota),
  with its message. A ValueError is told apart by what raised it: \<open>int\<close> on an invalid
  literal, \<open>RGBColor\<close> on a value outside 0..255, lxml on a string that XML cannot hold,
  python-pptx on a font size or a line width outside its range. \<open>PictureError\<close> is
  whatever \<open>add_picture\<close> raises on a file it cannot use as an image.
\<close>

datatype value_error =
    InvalidLiteral
  | RGBRange
  | NotXMLCompatible
  | FontSizeRange
  | LineWidthRange

datatype error =
    BackendError pystr
  | AttributeError
  | IndexError
  | ValueError value_error
  | UnicodeEncodeError
  | PictureError
  | OSError

text \<open>
  The two backends. \<open>chat n key system user\<close> is the outcome of the request numbered
  \<open>n\<close>, from \<open>import openai\<close> to \<open>response.choices[0].message.content\<close>, which may be
  \<open>None\<close>; temperature 0.7 and \<open>max_tokens=200\<close> are the same at both call sites.
  \<open>generator n prompt max_new_tokens\<close> is \<open>generator(prompt, ...)[0]['generated_text']\<close>
  of the local model. Sampling is not deterministic: the number of a request tells two
  requests with the same prompt apart.
\<close>

record providers =
  chat :: "nat \<Rightarrow> pystr \<Rightarrow> pystr \<Rightarrow> pystr \<Rightarrow> error + pystr option"
  generator :: "nat \<Rightarrow> pystr \<Rightarrow> nat \<Rightarrow> error + pystr"

text \<open>The Streamlit calls that show something, one constructor per call site.\<close>

datatype ui_msg =
    Warn_no_titles
  | Warn_openai_error error
  | Error_content pystr error
  | Warn_enter_topic
  | Info_generating
  | Error_titles_failed
  | Success_created
  | Download_link pystr

section \<open>generate\_slide\_titles\<close>

text \<open>The strip set \<open>"-\<bullet>1234567890. "\<close> of both title parsers; the bullet is U+2022.\<close>

definition bullet_chars :: pystr where
  "bullet_chars = str ''-'' @ [8226] @ str ''1234567890. ''"

text \<open>
  The parsing both paths apply to the text they get:
  \<^verbatim>\<open>titles = [line.strip("-\u20221234567890. ") for line in text.split("\n") if line.strip()]\<close>
  \<^verbatim>\<open>[t for t in titles if t][:5]\<close>
\<close>

definition parse_titles :: "pystr \<Rightarrow> pystr list" where
  "parse_titles text =
     (let lines = split NL text;
          titles = map (strip_chars bullet_chars) (filter (\<lambda>line. strip line \<noteq> []) lines)
      in take 5 (filter (\<lambda>t. t \<noteq> []) titles))"

definition title_request :: "pystr \<Rightarrow> pystr" where
  "title_request topic = str ''Generate 5 professional PowerPoint slide titles about: '' @ topic"

definition title_system :: pystr where
  "title_system =
     str ''You are a professional PowerPoint presentation assistant. Generate 5 concise slide titles.''"

definition fallback_titles :: "providers \<Rightarrow> nat \<Rightarrow> pystr \<Rightarrow> error + pystr list" where
  "fallback_titles pr n topic =
     (let prompt = title_request topic @ [NL] @ str ''1.''
      in case generator pr n prompt 80 of
           Inl e \<Rightarrow> Inl e
         | Inr result \<Rightarrow> Inr (parse_titles result))"

text \<open>
  The body of the \<open>try\<close> up to the second assignment of \<open>titles\<close>: \<open>content.split\<close> on a
  \<open>None\<close> content raises AttributeError.
\<close>

definition hosted_titles :: "providers \<Rightarrow> nat \<Rightarrow> pystr \<Rightarrow> pystr \<Rightarrow> error + pystr list" where
  "hosted_titles pr n topic key =
     (case chat pr n key title_system (title_request topic) of
        Inl e \<Rightarrow> Inl e
      | Inr None \<Rightarrow> Inl AttributeError
      | Inr (Some content) \<Rightarrow> Inr (parse_titles content))"

text \<open>
  \<open>n\<close> is the number of the first backend request the call makes. The
  \<open>return fallback_titles()\<close> after the warning stands inside the \<open>try\<close>: when it raises,
  the handler warns and calls \<open>fallback_titles\<close> once more. Outside the \<open>try\<close> an error of
  the local model leaves the function.
\<close>

fun generate_slide_titles ::
  "providers \<Rightarrow> nat \<Rightarrow> pystr \<Rightarrow> pystr option \<Rightarrow> ui_msg list \<times> (error + pystr list)" where
  "generate_slide_titles pr n topic None = ([], fallback_titles pr n topic)"
| "generate_slide_titles pr n topic (Some key) =
     (if key \<noteq> [] then
        (case hosted_titles pr n topic key of
           Inr titles \<Rightarrow>
             (if titles = [] then
                (case fallback_titles pr (n + 1) topic of
                   Inr ts \<Rightarrow> ([Warn_no_titles], Inr ts)
                 | Inl e \<Rightarrow>
                     ([Warn_no_titles, Warn_openai_error e], fallback_titles pr (n + 2) topic))
              else ([], Inr titles))
         | Inl e \<Rightarrow> ([Warn_openai_error e], fallback_titles pr (n + 1) topic))
      else ([], fallback_titles pr n topic))"

section \<open>generate\_slide\_content\<close>

definition sentinel :: pystr where
  "sentinel = str ''(Content generation failed)''"

definition content_system :: pystr where
  "content_system = str ''You are a PowerPoint slide content generator.''"

definition content_request :: "pystr \<Rightarrow> pystr" where
  "content_request title =
     str ''Write a professional 4-5 sentence paragraph for PowerPoint about: '' @ title"

definition content_prompt :: "pystr \<Rightarrow> pystr" where
  "content_prompt title =
     str ''Generate a professional PowerPoint paragraph about '' @ title @ str '' (4-5 sentences):''"

text \<open>\<open>xs[-1]\<close>: the last element, IndexError on the empty list.\<close>

definition last_item :: "'a list \<Rightarrow> error + 'a" where
  "last_item xs = (if xs = [] then Inl IndexError else Inr (last xs))"

text \<open>The \<open>else\<close> branch: the segment after the last colon of the local model's text.\<close>

definition local_content :: "providers \<Rightarrow> nat \<Rightarrow> pystr \<Rightarrow> error + pystr" where
  "local_content pr n title =
     (case generator pr n (content_prompt title) 120 of
        Inl e \<Rightarrow> Inl e
      | Inr result \<Rightarrow>
          (case last_item (split colon result) of
             Inl e \<Rightarrow> Inl e
           | Inr seg \<Rightarrow> Inr (strip seg)))"

text \<open>
  The body of the \<open>try\<close>. \<open>if openai_api_key\<close> holds for a string that is not empty;
  \<open>.strip()\<close> on a \<open>None\<close> content raises AttributeError.
\<close>

fun content_body :: "providers \<Rightarrow> nat \<Rightarrow> pystr \<Rightarrow> pystr option \<Rightarrow> error + pystr" where
  "content_body pr n title None = local_content pr n title"
| "content_body pr n title (Some key) =
     (if key \<noteq> [] then
        (case chat pr n key content_system (content_request title) of
           Inl e \<Rightarrow> Inl e
         | Inr None \<Rightarrow> Inl AttributeError
         | Inr (Some content) \<Rightarrow> Inr (strip content))
      else local_content pr n title)"

text \<open>\<open>except Exception as e\<close>: show the error, return the sentinel.\<close>

definition generate_slide_content ::
  "providers \<Rightarrow> nat \<Rightarrow> pystr \<Rightarrow> pystr option \<Rightarrow> ui_msg list \<times> (error + pystr)" where
  "generate_slide_content pr n title key =
     (case content_body pr n title key of
        Inr content \<Rightarrow> ([], Inr content)
      | Inl e \<Rightarrow> ([Error_content title e], Inr sentinel))"

section \<open>The environment of create\_ppt\<close>

text \<open>
  What \<open>create_ppt\<close> reads from outside the repository: the Unicode character database
  beyond ASCII (\<open>str.isalnum\<close>, and the decimal digits \<open>int\<close> accepts), the file
  \<open>default.jpg\<close> beside the program (missing, a picture python-pptx can insert, or a
  file it cannot), and whether \<open>os.makedirs\<close> and \<open>prs.save\<close> succeed.
\<close>

datatype image_file = Missing | Picture | Damaged

record env =
  ucd_alnum :: "pychar \<Rightarrow> bool"
  ucd_decimal :: "pychar \<Rightarrow> nat option"
  default_image :: image_file
  disk_ok :: bool

definition isalnum :: "env \<Rightarrow> pychar \<Rightarrow> bool" where
  "isalnum ev c \<longleftrightarrow>
     (if c < 128 then (48 \<le> c \<and> c \<le> 57) \<or> (65 \<le> c \<and> c \<le> 90) \<or> (97 \<le> c \<and> c \<le> 122)
      else ucd_alnum ev c)"

section \<open>int(s, 16) and RGBColor\<close>

text \<open>
  \<open>int(s, 16)\<close> on a string, as CPython reads it. First every character from 127 on is
  replaced: whitespace by a space, a Unicode decimal digit by its ASCII digit; any other
  one makes the call fail. Then: ASCII whitespace, an optional sign, an optional \<open>0x\<close> or
  \<open>0X\<close> with at most one underscore after it, hexadecimal digits with single underscores
  between them, ASCII whitespace. \<open>None\<close> stands for the ValueError.
\<close>

definition to_ascii :: "env \<Rightarrow> pychar \<Rightarrow> pychar option" where
  "to_ascii ev c =
     (if c < 127 then Some c
      else if c = 127 then None
      else if isspace c then Some 32
      else map_option (\<lambda>d. 48 + d) (ucd_decimal ev c))"

fun those_chars :: "pychar option list \<Rightarrow> pystr option" where
  "those_chars [] = Some []"
| "those_chars (None # _) = None"
| "those_chars (Some c # cs) = map_option ((#) c) (those_chars cs)"

definition ascii_space :: "pychar \<Rightarrow> bool" where
  "ascii_space c \<longleftrightarrow> c \<in> set [9, 10, 11, 12, 13, 32]"

definition digit16 :: "pychar \<Rightarrow> nat option" where
  "digit16 c =
     (if 48 \<le> c \<and> c \<le> 57 then Some (c - 48)
      else if 97 \<le> c \<and> c \<le> 102 then Some (c - 87)
      else if 65 \<le> c \<and> c \<le> 70 then Some (c - 55)
      else None)"

text \<open>The digits after the first one; an underscore must be followed by a digit.\<close>

fun more_digits16 :: "nat \<Rightarrow> pystr \<Rightarrow> nat option" where
  "more_digits16 acc [] = Some acc"
| "more_digits16 acc [c] =
     (case digit16 c of None \<Rightarrow> None | Some v \<Rightarrow> Some (16 * acc + v))"
| "more_digits16 acc (c # d # cs) =
     (if c = 95 then
        (case digit16 d of None \<Rightarrow> None | Some v \<Rightarrow> more_digits16 (16 * acc + v) cs)
      else
        (case digit16 c of None \<Rightarrow> None | Some v \<Rightarrow> more_digits16 (16 * acc + v) (d # cs)))"

definition digits16 :: "pystr \<Rightarrow> nat option" where
  "digits16 s =
     (case s of
        [] \<Rightarrow> None
      | c # cs \<Rightarrow> (case digit16 c of None \<Rightarrow> None | Some v \<Rightarrow> more_digits16 v cs))"

fun drop_sign :: "pystr \<Rightarrow> int \<times> pystr" where
  "drop_sign [] = (1, [])"
| "drop_sign (c # cs) =
     (if c = 43 then (1, cs) else if c = 45 then (- 1, cs) else (1, c # cs))"

fun drop_prefix16 :: "pystr \<Rightarrow> pystr" where
  "drop_prefix16 (z # x # cs) =
     (if z = 48 \<and> (x = 120 \<or> x = 88)
      then (case cs of [] \<Rightarrow> [] | u # us \<Rightarrow> if u = 95 then us else u # us)
      else z # x # cs)"
| "drop_prefix16 s = s"

definition int16 :: "env \<Rightarrow> pystr \<Rightarrow> error + int" where
  "int16 ev s =
     (case those_chars (map (to_ascii ev) s) of
        None \<Rightarrow> Inl (ValueError InvalidLiteral)
      | Some a \<Rightarrow>
          (let (sign, rest) = drop_sign (lstrip_with ascii_space a)
           in case digits16 (rstrip_with ascii_space (drop_prefix16 rest)) of
                None \<Rightarrow> Inl (ValueError InvalidLiteral)
              | Some v \<Rightarrow> Inr (sign * int v)))"

type_synonym rgb = "nat \<times> nat \<times> nat"

text \<open>\<open>RGBColor(r, g, b)\<close> raises ValueError unless each value lies in 0..255.\<close>

definition RGBColor :: "int \<Rightarrow> int \<Rightarrow> int \<Rightarrow> error + rgb" where
  "RGBColor r g b =
     (if list_all (\<lambda>v. 0 \<le> v \<and> v \<le> 255) [r, g, b] then Inr (nat r, nat g, nat b)
      else Inl (ValueError RGBRange))"

text \<open>\<open>s[i:j]\<close> for \<open>0 \<le> i \<le> j\<close>; a slice of a short string is short or empty.\<close>

definition slice :: "nat \<Rightarrow> nat \<Rightarrow> 'a list \<Rightarrow> 'a list" where
  "slice i j s = take (j - i) (drop i s)"

text \<open>\<^verbatim>\<open>RGBColor(int(c[1:3], 16), int(c[3:5], 16), int(c[5:7], 16))\<close>\<close>

definition rgb_of_hex :: "env \<Rightarrow> pystr \<Rightarrow> error + rgb" where
  "rgb_of_hex ev c =
     (case int16 ev (slice 1 3 c) of
        Inl e \<Rightarrow> Inl e
      | Inr r \<Rightarrow>
          (case int16 ev (slice 3 5 c) of
             Inl e \<Rightarrow> Inl e
           | Inr g \<Rightarrow>
               (case int16 ev (slice 5 7 c) of
                  Inl e \<Rightarrow> Inl e
                | Inr b \<Rightarrow> RGBColor r g b)))"

text \<open>\<open>Pt(n)\<close>: points as English Metric Units.\<close>

definition Pt :: "int \<Rightarrow> int" where
  "Pt n = n * 12700"

section \<open>The document\<close>

text \<open>
  The part of a python-pptx presentation the program touches. A shape is a placeholder
  with its index, the paragraphs of its text frame and its outline. A paragraph holds
  runs (\<open>a:r\<close>) and line breaks (\<open>a:br\<close>); a run holds the string of its \<open>a:t\<close> element,
  and its font size, in hundredths of a point, and colour once they are set.
\<close>

record run =
  run_text :: pystr
  font_size :: "int option"
  font_rgb :: "rgb option"

datatype item = Run run | Break

record shape =
  ph_idx :: nat
  paragraphs :: "item list list"
  outline :: "(rgb \<times> int) option"

record picture =
  pic_left :: int
  pic_top :: int
  pic_width :: int

record slide =
  layout :: nat
  background :: "rgb option"
  placeholders :: "shape list"
  pictures :: "picture list"

record presentation =
  slides :: "slide list"

text \<open>A loop whose body may raise: the first error ends it.\<close>

fun for_each :: "('a \<Rightarrow> error + 'b) \<Rightarrow> 'a list \<Rightarrow> error + 'b list" where
  "for_each f [] = Inr []"
| "for_each f (x # xs) =
     (case f x of
        Inl e \<Rightarrow> Inl e
      | Inr y \<Rightarrow> (case for_each f xs of Inl e \<Rightarrow> Inl e | Inr ys \<Rightarrow> Inr (y # ys)))"

text \<open>
  The setter of a run's text escapes control characters before it stores the string:
  \<^verbatim>\<open>re.sub(r"([\x00-\x08\x0B-\x1F])", lambda match: "_x%04X_" % ord(match.group(1)), s)\<close>
  Four hexadecimal digits are all of \<open>%04X\<close> for the code points the pattern matches.
\<close>

definition ctrl_char :: "pychar \<Rightarrow> bool" where
  "ctrl_char c \<longleftrightarrow> c \<le> 8 \<or> (11 \<le> c \<and> c \<le> 31)"

definition hex_upper :: "nat \<Rightarrow> pychar" where
  "hex_upper d = (if d < 10 then 48 + d else 55 + d)"

definition escape_char :: "pychar \<Rightarrow> pystr" where
  "escape_char c =
     [95, 120, hex_upper (c div 4096 mod 16), hex_upper (c div 256 mod 16),
      hex_upper (c div 16 mod 16), hex_upper (c mod 16), 95]"

definition escape_ctrl_chars :: "pystr \<Rightarrow> pystr" where
  "escape_ctrl_chars s = concat (map (\<lambda>c. if ctrl_char c then escape_char c else [c]) s)"

text \<open>
  Assigning a string to the text of an lxml element. lxml encodes the string as UTF-8,
  which raises UnicodeEncodeError on a surrogate, and then raises ValueError (all strings
  must be XML compatible) on U+FFFE, on U+FFFF and on a control character other than
  tab, line feed and carriage return.
\<close>

definition surrogate :: "pychar \<Rightarrow> bool" where
  "surrogate c \<longleftrightarrow> 55296 \<le> c \<and> c \<le> 57343"

definition xml_forbidden :: "pychar \<Rightarrow> bool" where
  "xml_forbidden c \<longleftrightarrow> c = 65534 \<or> c = 65535 \<or> (c < 32 \<and> c \<notin> set [9, 10, 13])"

definition set_node_text :: "pystr \<Rightarrow> error + pystr" where
  "set_node_text s =
     (if list_ex surrogate s then Inl UnicodeEncodeError
      else if list_ex xml_forbidden s then Inl (ValueError NotXMLCompatible)
      else Inr s)"

text \<open>\<open>p.add_r(text)\<close>: a new run with the escaped text.\<close>

definition add_r :: "pystr \<Rightarrow> error + run" where
  "add_r w =
     (case set_node_text (escape_ctrl_chars w) of
        Inl e \<Rightarrow> Inl e
      | Inr t \<Rightarrow> Inr \<lparr>run_text = t, font_size = None, font_rgb = None\<rparr>)"

text \<open>
  \<open>p.append_text(text)\<close> on an empty paragraph:
  \<^verbatim>\<open>for idx, r_str in enumerate(re.split("\n|\v", text)):\<close>
  \<^verbatim>\<open>    if idx > 0: self.add_br()\<close>
  \<^verbatim>\<open>    if r_str: self.add_r(r_str)\<close>
  The text of a paragraph has no line feed, so the pieces are those between vertical
  tabs. \<open>run_items\<close> is the second line of the body, \<open>more_items\<close> the loop from the
  second piece on.
\<close>

definition run_items :: "pystr \<Rightarrow> error + item list" where
  "run_items r_str =
     (if r_str \<noteq> [] then (case add_r r_str of Inl e \<Rightarrow> Inl e | Inr r \<Rightarrow> Inr [Run r])
      else Inr [])"

fun more_items :: "pystr list \<Rightarrow> error + item list" where
  "more_items [] = Inr []"
| "more_items (r_str # rest) =
     (case run_items r_str of
        Inl e \<Rightarrow> Inl e
      | Inr a \<Rightarrow> (case more_items rest of Inl e \<Rightarrow> Inl e | Inr b \<Rightarrow> Inr (Break # a @ b)))"

definition append_text :: "pystr \<Rightarrow> error + item list" where
  "append_text t =
     (case split VT t of
        [] \<Rightarrow> Inr []
      | r_str # rest \<Rightarrow>
          (case run_items r_str of
             Inl e \<Rightarrow> Inl e
           | Inr a \<Rightarrow> (case more_items rest of Inl e \<Rightarrow> Inl e | Inr b \<Rightarrow> Inr (a @ b))))"

text \<open>
  \<open>shape.text = t\<close>: the text frame is emptied, then
  \<^verbatim>\<open>for p_text in text.split("\n"): p = txBody.add_p(); p.append_text(p_text)\<close>
\<close>

definition set_text :: "pystr \<Rightarrow> shape \<Rightarrow> error + shape" where
  "set_text t sh =
     (case for_each append_text (split NL t) of
        Inl e \<Rightarrow> Inl e
      | Inr ps \<Rightarrow> Inr (sh\<lparr>paragraphs := ps\<rparr>))"

text \<open>
  \<open>shape.text\<close> read back: the texts of the paragraphs joined by line feeds, the text of
  a paragraph being the strings of its runs, unchanged, with a vertical tab for every
  line break.
\<close>

fun item_text :: "item \<Rightarrow> pystr" where
  "item_text (Run r) = run_text r"
| "item_text Break = [VT]"

fun join :: "pystr \<Rightarrow> pystr list \<Rightarrow> pystr" where
  "join sep [] = []"
| "join sep [x] = x"
| "join sep (x # y # ys) = x @ sep @ join sep (y # ys)"

definition paragraph_text :: "item list \<Rightarrow> pystr" where
  "paragraph_text p = concat (map item_text p)"

definition shape_text :: "shape \<Rightarrow> pystr" where
  "shape_text sh = join [NL] (map paragraph_text (paragraphs sh))"

text \<open>A placeholder of a new slide has one paragraph, without runs.\<close>

definition new_placeholder :: "nat \<Rightarrow> shape" where
  "new_placeholder i = \<lparr>ph_idx = i, paragraphs = [[]], outline = None\<rparr>"

text \<open>
  \<open>prs.slides.add_slide(prs.slide_layouts[k])\<close> on the default template, for the two
  layouts the program uses: layout 0 (Title Slide) and layout 1 (Title and Content) both
  give a slide with the title placeholder, index 0, and one more placeholder, index 1
  (subtitle or body).
\<close>

definition add_slide :: "nat \<Rightarrow> slide" where
  "add_slide k =
     \<lparr>layout = k, background = None,
      placeholders = [new_placeholder 0, new_placeholder 1], pictures = []\<rparr>"

text \<open>
  \<open>run.font.size = emu\<close>: the size is stored in hundredths of a point, \<open>emu // 127\<close>, and
  python-pptx raises ValueError unless that lies in 100..400000 (1 to 4000 points).
\<close>

definition set_font_size :: "int \<Rightarrow> run \<Rightarrow> error + run" where
  "set_font_size emu r =
     (let sz = emu div 127
      in if 100 \<le> sz \<and> sz \<le> 400000 then Inr (r\<lparr>font_size := Some sz\<rparr>)
         else Inl (ValueError FontSizeRange))"

text \<open>
  \<^verbatim>\<open>for p in shape.text_frame.paragraphs:\<close>
  \<^verbatim>\<open>    for run in p.runs:\<close>
  \<^verbatim>\<open>        run.font.size = Pt(size)\<close>
  \<^verbatim>\<open>        run.font.color.rgb = RGBColor(int(color[1:3], 16), ...)\<close>
  Size and colour are set once per run, so not at all when there is no run; \<open>p.runs\<close>
  leaves the line breaks out.
\<close>

definition style_run :: "env \<Rightarrow> int \<Rightarrow> pystr \<Rightarrow> run \<Rightarrow> error + run" where
  "style_run ev sz color r =
     (case set_font_size (Pt sz) r of
        Inl e \<Rightarrow> Inl e
      | Inr r' \<Rightarrow>
          (case rgb_of_hex ev color of
             Inl e \<Rightarrow> Inl e
           | Inr c \<Rightarrow> Inr (r'\<lparr>font_rgb := Some c\<rparr>)))"

fun style_item :: "env \<Rightarrow> int \<Rightarrow> pystr \<Rightarrow> item \<Rightarrow> error + item" where
  "style_item ev sz color (Run r) =
     (case style_run ev sz color r of Inl e \<Rightarrow> Inl e | Inr r' \<Rightarrow> Inr (Run r'))"
| "style_item ev sz color Break = Inr Break"

definition style_runs :: "env \<Rightarrow> int \<Rightarrow> pystr \<Rightarrow> shape \<Rightarrow> error + shape" where
  "style_runs ev sz color sh =
     (case for_each (for_each (style_item ev sz color)) (paragraphs sh) of
        Inl e \<Rightarrow> Inl e
      | Inr ps \<Rightarrow> Inr (sh\<lparr>paragraphs := ps\<rparr>))"

text \<open>
  \<open>slide.shapes.title\<close> is the placeholder of index 0, \<open>None\<close> when there is none (then
  the attribute access raises AttributeError). \<open>on_title f\<close> applies \<open>f\<close> to it in place.
\<close>

definition on_title :: "(shape \<Rightarrow> error + shape) \<Rightarrow> slide \<Rightarrow> error + slide" where
  "on_title f s =
     (case find (\<lambda>sh. ph_idx sh = 0) (placeholders s) of
        None \<Rightarrow> Inl AttributeError
      | Some _ \<Rightarrow>
          (case for_each (\<lambda>sh. if ph_idx sh = 0 then f sh else Inr sh) (placeholders s) of
             Inl e \<Rightarrow> Inl e
           | Inr phs \<Rightarrow> Inr (s\<lparr>placeholders := phs\<rparr>)))"

definition set_background :: "env \<Rightarrow> pystr \<Rightarrow> slide \<Rightarrow> error + slide" where
  "set_background ev bg_color s =
     (case rgb_of_hex ev bg_color of
        Inl e \<Rightarrow> Inl e
      | Inr c \<Rightarrow> Inr (s\<lparr>background := Some c\<rparr>))"

section \<open>create\_ppt\<close>

text \<open>The title slide: text, background, then size and colour of the title's runs.\<close>

definition title_slide :: "env \<Rightarrow> pystr \<Rightarrow> pystr \<Rightarrow> pystr \<Rightarrow> int \<Rightarrow> error + slide" where
  "title_slide ev topic bg_color title_color title_size =
     (case on_title (set_text topic) (add_slide 0) of
        Inl e \<Rightarrow> Inl e
      | Inr s1 \<Rightarrow>
          (case set_background ev bg_color s1 of
             Inl e \<Rightarrow> Inl e
           | Inr s2 \<Rightarrow> on_title (style_runs ev title_size title_color) s2))"

text \<open>
  \<open>ln.width = emu\<close>: python-pptx raises ValueError unless the width lies in 0..20116800
  (0 to 1584 points).
\<close>

definition set_line_width :: "int \<Rightarrow> rgb \<Rightarrow> shape \<Rightarrow> error + shape" where
  "set_line_width emu c sh =
     (if 0 \<le> emu \<and> emu \<le> 20116800 then Inr (sh\<lparr>outline := Some (c, emu)\<rparr>)
      else Inl (ValueError LineWidthRange))"

text \<open>
  \<open>if border_color and border_width > 0\<close>: the border colour is a string that is not
  empty, and the width is positive. The colour is set first, then the width.
\<close>

definition draw_border :: "env \<Rightarrow> pystr option \<Rightarrow> int \<Rightarrow> shape \<Rightarrow> error + shape" where
  "draw_border ev border_color border_width sh =
     (case border_color of
        None \<Rightarrow> Inr sh
      | Some bc \<Rightarrow>
          (if bc \<noteq> [] \<and> border_width > 0 then
             (case rgb_of_hex ev bc of
                Inl e \<Rightarrow> Inl e
              | Inr c \<Rightarrow> set_line_width (Pt border_width) c sh)
           else Inr sh))"

text \<open>The body of \<open>for shape in slide.placeholders\<close>.\<close>

definition fill_placeholder ::
  "env \<Rightarrow> pystr \<Rightarrow> pystr \<Rightarrow> int \<Rightarrow> pystr option \<Rightarrow> int \<Rightarrow> shape \<Rightarrow> error + shape" where
  "fill_placeholder ev content content_color content_size border_color border_width sh =
     (if ph_idx sh = 1 then
        (case set_text content sh of
           Inl e \<Rightarrow> Inl e
         | Inr sh1 \<Rightarrow>
             (case style_runs ev content_size content_color sh1 of
                Inl e \<Rightarrow> Inl e
              | Inr sh2 \<Rightarrow> draw_border ev border_color border_width sh2))
      else Inr sh)"

text \<open>
  \<open>if os.path.exists(image_path): slide.shapes.add_picture(image_path, left, top, width=width)\<close>
\<close>

definition add_default_picture :: "env \<Rightarrow> slide \<Rightarrow> error + slide" where
  "add_default_picture ev s =
     (case default_image ev of
        Missing \<Rightarrow> Inr s
      | Picture \<Rightarrow>
          Inr (s\<lparr>pictures :=
                   pictures s @ [\<lparr>pic_left = Pt 400, pic_top = Pt 100, pic_width = Pt 200\<rparr>]\<rparr>)
      | Damaged \<Rightarrow> Inl PictureError)"

text \<open>The body of \<open>for title, content in zip(titles, contents)\<close>.\<close>

definition content_slide ::
  "env \<Rightarrow> pystr \<Rightarrow> pystr \<Rightarrow> pystr \<Rightarrow> int \<Rightarrow> int \<Rightarrow> pystr option \<Rightarrow> int \<Rightarrow> pystr \<times> pystr
     \<Rightarrow> error + slide" where
  "content_slide ev bg_color title_color content_color title_size content_size
       border_color border_width tc =
     (case set_background ev bg_color (add_slide 1) of
        Inl e \<Rightarrow> Inl e
      | Inr s1 \<Rightarrow>
          (case on_title (set_text (fst tc)) s1 of
             Inl e \<Rightarrow> Inl e
           | Inr s2 \<Rightarrow>
               (case on_title (style_runs ev title_size title_color) s2 of
                  Inl e \<Rightarrow> Inl e
                | Inr s3 \<Rightarrow>
                    (case for_each
                            (fill_placeholder ev (snd tc) content_color content_size
                               border_color border_width)
                            (placeholders s3) of
                       Inl e \<Rightarrow> Inl e
                     | Inr phs \<Rightarrow> add_default_picture ev (s3\<lparr>placeholders := phs\<rparr>)))))"

text \<open>\<^verbatim>\<open>"".join(c for c in topic if c.isalnum() or c in (" ", "_", "-"))\<close>\<close>

definition safe_topic :: "env \<Rightarrow> pystr \<Rightarrow> pystr" where
  "safe_topic ev topic = filter (\<lambda>c. isalnum ev c \<or> c \<in> set [32, 95, 45]) topic"

definition output_path :: "env \<Rightarrow> pystr \<Rightarrow> pystr" where
  "output_path ev topic = str ''generated_ppt/'' @ safe_topic ev topic @ str ''_presentation.pptx''"

text \<open>
  The result is the path together with the presentation saved under it; an error is the
  exception that leaves the function, and then nothing was saved.
\<close>

definition create_ppt ::
  "env \<Rightarrow> pystr \<Rightarrow> pystr list \<Rightarrow> pystr list \<Rightarrow> pystr \<Rightarrow> pystr \<Rightarrow> pystr \<Rightarrow> int \<Rightarrow> int
     \<Rightarrow> pystr option \<Rightarrow> int \<Rightarrow> error + pystr \<times> presentation" where
  "create_ppt ev topic titles contents bg_color title_color content_color title_size
       content_size border_color border_width =
     (case title_slide ev topic bg_color title_color title_size of
        Inl e \<Rightarrow> Inl e
      | Inr first \<Rightarrow>
          (case for_each
                  (content_slide ev bg_color title_color content_color title_size content_size
                     border_color border_width)
                  (zip titles contents) of
             Inl e \<Rightarrow> Inl e
           | Inr rest \<Rightarrow>
               (if disk_ok ev then Inr (output_path ev topic, \<lparr>slides = first # rest\<rparr>)
                else Inl OSError)))"

section \<open>main\<close>

text \<open>The values of the widgets when the script runs.\<close>

record form =
  topic_input :: pystr
  key_input :: pystr
  bg_color_input :: pystr
  title_color_input :: pystr
  content_color_input :: pystr
  title_size_input :: int
  content_size_input :: int
  border_color_input :: pystr
  border_width_input :: int
  button :: bool

text \<open>
  \<^verbatim>\<open>contents = [generate_slide_content(title, openai_api_key) for title in titles]\<close>
  with the messages shown on the way; \<open>n\<close> numbers the backend requests.
\<close>

fun generate_contents ::
  "providers \<Rightarrow> nat \<Rightarrow> pystr option \<Rightarrow> pystr list \<Rightarrow> ui_msg list \<times> (error + pystr list)" where
  "generate_contents pr n key [] = ([], Inr [])"
| "generate_contents pr n key (title # titles) =
     (case generate_slide_content pr n title key of
        (ms, Inl e) \<Rightarrow> (ms, Inl e)
      | (ms, Inr c) \<Rightarrow>
          (case generate_contents pr (n + 1) key titles of
             (ms', Inl e) \<Rightarrow> (ms @ ms', Inl e)
           | (ms', Inr cs) \<Rightarrow> (ms @ ms', Inr (c # cs))))"

text \<open>\<open>os.path.basename\<close> of a path with \<open>/\<close> as separator.\<close>

definition basename :: "pystr \<Rightarrow> pystr" where
  "basename path = last (split 47 path)"

text \<open>
  The result of a run: the messages shown, and either the exception that left \<open>main\<close> or
  the file written, if any. Title generation makes at most three backend requests
  (numbers 0 to 2); the contents use the numbers from 3 on.
\<close>

definition main ::
  "env \<Rightarrow> providers \<Rightarrow> form \<Rightarrow> ui_msg list \<times> (error + (pystr \<times> presentation) option)" where
  "main ev pr fm =
     (if button fm then
        (if topic_input fm = [] then ([Warn_enter_topic], Inr None)
         else
           (case generate_slide_titles pr 0 (topic_input fm) (Some (key_input fm)) of
              (ms, Inl e) \<Rightarrow> (Info_generating # ms, Inl e)
            | (ms, Inr titles) \<Rightarrow>
                (if titles = [] \<or> length titles < 1 then
                   (Info_generating # ms @ [Error_titles_failed], Inr None)
                 else
                   (case generate_contents pr 3 (Some (key_input fm)) titles of
                      (ms', Inl e) \<Rightarrow> (Info_generating # ms @ ms', Inl e)
                    | (ms', Inr contents) \<Rightarrow>
                        (case create_ppt ev (topic_input fm) titles contents
                                (bg_color_input fm) (title_color_input fm)
                                (content_color_input fm) (title_size_input fm)
                                (content_size_input fm) (Some (border_color_input fm))
                                (border_width_input fm) of
                           Inl e \<Rightarrow> (Info_generating # ms @ ms', Inl e)
                         | Inr (path, prs) \<Rightarrow>
                             (Info_generating # ms @ ms'
                                @ [Success_created, Download_link (basename path)],
                              Inr (Some (path, prs))))))))
      else ([], Inr None))"

section \<open>Observing a presentation, and the arguments of a call\<close>

text \<open>
  \<open>slide.shapes.title.text\<close> and the text of the placeholder of index 1, read back from
  the document.
\<close>

definition title_text :: "slide \<Rightarrow> pystr option" where
  "title_text s = map_option shape_text (find (\<lambda>sh. ph_idx sh = 0) (placeholders s))"

definition body_text :: "slide \<Rightarrow> pystr option" where
  "body_text s = map_option shape_text (find (\<lambda>sh. ph_idx sh = 1) (placeholders s))"

text \<open>
  A string with every control character but tab, line feed and vertical tab written as
  \<open>_xHHHH_\<close>; a plain string has none of these characters.
\<close>

definition escaped :: "pystr \<Rightarrow> pystr" where
  "escaped t = concat (map (\<lambda>c. if ctrl_char c \<and> c \<noteq> VT then escape_char c else [c]) t)"

definition plain :: "pystr \<Rightarrow> bool" where
  "plain t \<longleftrightarrow> \<not> list_ex (\<lambda>c. ctrl_char c \<and> c \<noteq> VT) t"

text \<open>
  A well-formed colour is \<open>#\<close> followed by six hexadecimal digits. The border is drawn
  when the border colour is a string that is not empty and the width is positive. The
  colours of a call are well formed when background, title and content colour are, and
  the border colour is whenever the border is drawn. An error of colour parsing is the
  ValueError of \<open>int\<close> or of \<open>RGBColor\<close>.
\<close>

definition hexdigit :: "pychar \<Rightarrow> bool" where
  "hexdigit c \<longleftrightarrow> c \<in> set (str ''0123456789abcdefABCDEF'')"

definition well_formed_hex :: "pystr \<Rightarrow> bool" where
  "well_formed_hex c \<longleftrightarrow>
     (case c of [] \<Rightarrow> False | h # ds \<Rightarrow> h = 35 \<and> length ds = 6 \<and> list_all hexdigit ds)"

definition border_drawn :: "pystr option \<Rightarrow> int \<Rightarrow> bool" where
  "border_drawn border_color border_width \<longleftrightarrow>
     border_color \<noteq> None \<and> border_color \<noteq> Some [] \<and> border_width > 0"

definition colors_well_formed :: "pystr \<Rightarrow> pystr \<Rightarrow> pystr \<Rightarrow> pystr option \<Rightarrow> int \<Rightarrow> bool" where
  "colors_well_formed bg_color title_color content_color border_color border_width \<longleftrightarrow>
     well_formed_hex bg_color \<and> well_formed_hex title_color \<and> well_formed_hex content_color
     \<and> (border_drawn border_color border_width
          \<longrightarrow> (case border_color of None \<Rightarrow> False | Some bc \<Rightarrow> well_formed_hex bc))"

definition color_error :: "error \<Rightarrow> bool" where
  "color_error e \<longleftrightarrow> e = ValueError InvalidLiteral \<or> e = ValueError RGBRange"

text \<open>
  What the document library asks of the other arguments: no text holds a surrogate,
  U+FFFE or U+FFFF; the font sizes lie in 1..4000 points; the width of a border that
  is drawn is at most 1584 points.
\<close>


definition xml_compatible :: "pystr \<Rightarrow> bool" where
  "xml_compatible t \<longleftrightarrow> \<not> list_ex (\<lambda>c. surrogate c \<or> c = 65534 \<or> c = 65535) t"

definition texts_compatible :: "pystr \<Rightarrow> pystr list \<Rightarrow> pystr list \<Rightarrow> bool" where
  "texts_compatible topic titles contents \<longleftrightarrow>
     xml_compatible topic
     \<and> list_all (\<lambda>tc. xml_compatible (fst tc) \<and> xml_compatible (snd tc)) (zip titles contents)"

definition sizes_valid :: "int \<Rightarrow> int \<Rightarrow> pystr option \<Rightarrow> int \<Rightarrow> bool" where
  "sizes_valid title_size content_size border_color border_width \<longleftrightarrow>
     1 \<le> title_size \<and> title_size \<le> 4000 \<and> 1 \<le> content_size \<and> content_size \<le> 4000
     \<and> (border_drawn border_color border_width \<longrightarrow> border_width \<le> 1584)"

text \<open>The errors of assigning a text: those lxml raises.\<close>

definition text_error :: "error \<Rightarrow> bool" where
  "text_error e \<longleftrightarrow> e = UnicodeEncodeError \<or> e = ValueError NotXMLCompatible"

section \<open>Sample inputs\<close>

text \<open>Concrete lines, texts, providers and environments on which the results are run.\<close>

definition sample_text :: pystr where
  "sample_text = str ''1. Intro'' @ [NL] @ str ''2. Trends in 2024''"

definition sample_line :: pystr where
  "sample_line = str ''Trends in 2024''"

text \<open>
  A hosted backend that is unreachable, and a local model that returns its prompt and a
  newline.
\<close>

definition echo_providers :: providers where
  "echo_providers =
     \<lparr>chat = (\<lambda>n key sys usr. Inl (BackendError (str ''no network''))),
      generator = (\<lambda>n prompt k. Inr (prompt @ [NL]))\<rparr>"

definition sample_key :: pystr where
  "sample_key = str ''sk-1''"

text \<open>A local model whose continuation has a colon of its own.\<close>

definition colon_providers :: providers where
  "colon_providers =
     \<lparr>chat = (\<lambda>n key sys usr. Inl (BackendError (str ''no network''))),
      generator = (\<lambda>n prompt k. Inr (prompt @ str '' Two parts: a and b. ''))\<rparr>"

text \<open>
  An environment with a default picture and a disk that takes the file. Its tables hold
  nothing beyond ASCII; the sample strings are ASCII, so they are never consulted.
\<close>

definition sample_env :: env where
  "sample_env =
     \<lparr>ucd_alnum = (\<lambda>c. False), ucd_decimal = (\<lambda>c. None), default_image = Picture, disk_ok = True\<rparr>"

definition white :: pystr where
  "white = str ''#FFFFFF''"

definition black :: pystr where
  "black = str ''#000000''"

definition red :: pystr where
  "red = str ''#ff0000''"

text \<open>
  A hosted backend that answers the first request with two numbered titles and fails on
  every later one, beside a local model that fails.
\<close>

definition titles_only_providers :: providers where
  "titles_only_providers =
     \<lparr>chat = (\<lambda>n key sys usr.
                if n = 0 then Inr (Some (str ''1. A'' @ [NL] @ str ''2. B''))
                else Inl (BackendError (str ''quota''))),
      generator = (\<lambda>n prompt k. Inl (BackendError (str ''no model'')))\<rparr>"

text \<open>Backends that answer with nothing.\<close>

definition silent_providers :: providers where
  "silent_providers =
     \<lparr>chat = (\<lambda>n key sys usr. Inr (Some [])), generator = (\<lambda>n prompt k. Inr [])\<rparr>"

definition sample_form :: form where
  "sample_form =
     \<lparr>topic_input = str ''AI'', key_input = sample_key, bg_color_input = white,
      title_color_input = black, content_color_input = black, title_size_input = 30,
      content_size_input = 16, border_color_input = black, border_width_input = 0,
      button = True\<rparr>"

text \<open>
  Backends that both write the numbered lines \<open>1. Intro\<close> and \<open>2. Trends in 2024\<close>; the
  local model writes them after its prompt, which ends in \<open>1.\<close>.
\<close>

definition year_providers :: providers where
  "year_providers =
     \<lparr>chat = (\<lambda>n key sys usr. Inr (Some sample_text)),
      generator = (\<lambda>n prompt k. Inr (prompt @ str '' Intro'' @ [NL] @ str ''2. Trends in 2024''))\<rparr>"

text \<open>A title as the parser cuts it from a text with CR LF line ends.\<close>

definition crlf_title :: pystr where
  "crlf_title = str ''Intro'' @ [13]"

section \<open>Facts about split and strip\<close>

lemmas string_defs = str_def strip_def strip_chars_def strip_with_def lstrip_with_def
  rstrip_with_def isspace_def bullet_chars_def

lemma split_not_Nil: "split sep s \<noteq> []"
  by (induction s) (auto split: list.splits)

lemma split_pieces: "w \<in> set (split sep s) \<Longrightarrow> sep \<notin> set w"
  by (induction s arbitrary: w) (auto split: if_splits list.splits)

lemma split_no_sep: "sep \<notin> set s \<Longrightarrow> split sep s = [s]"
  by (induction s) auto

lemma split_append_sep:
  "sep \<notin> set suf \<Longrightarrow> \<exists>ws. ws \<noteq> [] \<and> split sep (pre @ sep # suf) = ws @ [suf]"
proof (induction pre)
  case Nil
  then have "split sep ([] @ sep # suf) = [[]] @ [suf]" by (simp add: split_no_sep)
  then show ?case by blast
next
  case (Cons c pre)
  then obtain ws where ws: "ws \<noteq> []" "split sep (pre @ sep # suf) = ws @ [suf]" by blast
  then obtain w ws' where w: "ws = w # ws'" by (cases ws) auto
  show ?case
  proof (cases "c = sep")
    case True
    then have "split sep ((c # pre) @ sep # suf) = ([] # ws) @ [suf]" using ws by simp
    then show ?thesis by blast
  next
    case False
    then have "split sep ((c # pre) @ sep # suf) = ((c # w) # ws') @ [suf]" using ws w by simp
    then show ?thesis by blast
  qed
qed

lemma last_split_append: "sep \<notin> set suf \<Longrightarrow> last (split sep (pre @ sep # suf)) = suf"
  using split_append_sep [of sep suf pre] by auto

lemma last_split_no_sep: "sep \<notin> set (last (split sep s))"
  using split_pieces [OF last_in_set [OF split_not_Nil]] by blast

lemma set_strip_with: "set (strip_with p s) \<subseteq> set s"
  unfolding strip_with_def lstrip_with_def rstrip_with_def
  by (metis set_dropWhileD set_rev subsetI)

lemma strip_with_core:
  assumes "\<forall>c\<in>set pre. p c" and "\<forall>c\<in>set suf. p c"
    and "core = [] \<or> (\<not> p (hd core) \<and> \<not> p (last core))"
  shows "strip_with p (pre @ core @ suf) = core"
proof (cases "core = []")
  case True
  with assms(1,2) show ?thesis
    by (auto simp: strip_with_def lstrip_with_def rstrip_with_def dest: set_dropWhileD)
next
  case False
  with assms(3) have edges: "\<not> p (hd core)" "\<not> p (last core)" by auto
  have l: "dropWhile p (pre @ core @ suf) = core @ suf"
    using assms(1) False edges(1) by (cases core) (simp_all add: dropWhile_append2)
  have h: "\<not> p (hd (rev core))"
    using False edges(2) by (simp add: hd_rev)
  have "dropWhile p (rev suf @ rev core) = dropWhile p (rev core)"
    by (rule dropWhile_append2) (use assms(2) in auto)
  also have "\<dots> = rev core"
    using False h by (cases "rev core") simp_all
  finally show ?thesis
    by (simp add: strip_with_def lstrip_with_def rstrip_with_def l)
qed

lemma strip_with_decomp:
  "\<exists>pre suf. s = pre @ strip_with p s @ suf \<and> (\<forall>c\<in>set pre. p c) \<and> (\<forall>c\<in>set suf. p c)"
proof -
  define a where "a = dropWhile p s"
  define b where "b = dropWhile p (rev a)"
  have s: "s = takeWhile p s @ a" by (simp add: a_def)
  have "rev a = takeWhile p (rev a) @ b" by (simp add: b_def)
  then have a: "a = rev b @ rev (takeWhile p (rev a))" by (metis rev_append rev_rev_ident)
  have st: "strip_with p s = rev b"
    by (simp add: strip_with_def lstrip_with_def rstrip_with_def a_def b_def)
  have "s = takeWhile p s @ strip_with p s @ rev (takeWhile p (rev a))"
    using s a st by simp
  moreover have "\<forall>c\<in>set (takeWhile p s). p c" by (auto dest: set_takeWhileD)
  moreover have "\<forall>c\<in>set (rev (takeWhile p (rev a))). p c" by (auto dest: set_takeWhileD)
  ultimately show ?thesis by blast
qed

lemma last_dropWhile: "dropWhile p xs \<noteq> [] \<Longrightarrow> last (dropWhile p xs) = last xs"
  by (metis last_appendR takeWhile_dropWhile_id)

lemma strip_with_edges:
  "strip_with p s = [] \<or> (\<not> p (hd (strip_with p s)) \<and> \<not> p (last (strip_with p s)))"
proof (cases "strip_with p s = []")
  case True then show ?thesis by simp
next
  case False
  define a where "a = dropWhile p s"
  define b where "b = dropWhile p (rev a)"
  have st: "strip_with p s = rev b"
    by (simp add: strip_with_def lstrip_with_def rstrip_with_def a_def b_def)
  with False have b: "b \<noteq> []" by simp
  then have a: "a \<noteq> []" by (auto simp: b_def)
  have "\<not> p (hd b)" using b unfolding b_def by (rule hd_dropWhile)
  moreover have "last b = last (rev a)" using b unfolding b_def by (rule last_dropWhile)
  moreover have "\<not> p (hd a)" using a unfolding a_def by (rule hd_dropWhile)
  ultimately show ?thesis using st a b by (simp add: hd_rev last_rev)
qed

lemma strip_with_idem: "strip_with p (strip_with p s) = strip_with p s"
  using strip_with_core [of "[]" p "[]" "strip_with p s"] strip_with_edges [of p s] by simp

lemma split_subset: "w \<in> set (split sep s) \<Longrightarrow> x \<in> set w \<Longrightarrow> x \<in> set s"
  by (induction s arbitrary: w) (fastforce split: if_splits list.splits)+

lemma join_Cons: "join sep (x # xs) = x @ concat (map (\<lambda>w. sep @ w) xs)"
  by (induction xs arbitrary: x) auto

lemma join_split:
  assumes "g sep = [sep]"
  shows "join [sep] (map (\<lambda>w. concat (map g w)) (split sep s)) = concat (map g s)"
proof (induction s)
  case Nil
  show ?case by simp
next
  case (Cons c s)
  obtain w ws where sp: "split sep s = w # ws" by (cases "split sep s") (auto simp: split_not_Nil)
  show ?case
  proof (cases "c = sep")
    case True
    with Cons sp assms show ?thesis by simp
  next
    case False
    with Cons sp show ?thesis by (cases ws) simp_all
  qed
qed

section \<open>The title parser\<close>

text \<open>
  C1. For every text a provider returns, the parsing step of \<open>generate_slide_titles\<close>
  yields at most five titles, none of them empty; the list is empty exactly when no line
  of the text is usable, that is, survives both the blank-line test and the stripping.
  Both paths return this parse of the text their backend returned: \<open>fallback_titles\<close>
  that of the local model's text (its exception leaves the function), the hosted path
  that of the answer when it has a title, and the fallback's result when the answer has
  none; without a key the fallback alone runs. So whatever \<open>generate_slide_titles\<close>
  returns is a list of at most five non-empty titles, never \<open>None\<close>.
\<close>

theorem parse_titles_shape:
  "length (parse_titles raw) \<le> 5
   \<and> (\<forall>t\<in>set (parse_titles raw). t \<noteq> [])
   \<and> (parse_titles raw = [] \<longleftrightarrow>
        \<not> (\<exists>l\<in>set (split NL raw). strip l \<noteq> [] \<and> strip_chars bullet_chars l \<noteq> []))
   \<and> (generator pr n (title_request topic @ [NL] @ str ''1.'') 80 = Inr raw \<longrightarrow>
        fallback_titles pr n topic = Inr (parse_titles raw))
   \<and> (\<forall>e. generator pr n (title_request topic @ [NL] @ str ''1.'') 80 = Inl e \<longrightarrow>
        fallback_titles pr n topic = Inl e)
   \<and> (key = None \<or> key = Some [] \<longrightarrow>
        generate_slide_titles pr n topic key = ([], fallback_titles pr n topic))
   \<and> (\<forall>k. key = Some k \<and> k \<noteq> []
            \<and> chat pr n k title_system (title_request topic) = Inr (Some raw)
            \<and> parse_titles raw \<noteq> [] \<longrightarrow>
          generate_slide_titles pr n topic key = ([], Inr (parse_titles raw)))
   \<and> (\<forall>k ts. key = Some k \<and> k \<noteq> []
            \<and> (\<forall>content. chat pr n k title_system (title_request topic) = Inr (Some content)
                  \<longrightarrow> parse_titles content = [])
            \<and> fallback_titles pr (n + 1) topic = Inr ts \<longrightarrow>
          snd (generate_slide_titles pr n topic key) = Inr ts)
   \<and> (\<forall>ts. snd (generate_slide_titles pr n topic key) = Inr ts \<longrightarrow>
          length ts \<le> 5 \<and> (\<forall>t\<in>set ts. t \<noteq> []))"
proof -
  have len: "length (parse_titles x) \<le> 5" for x
    by (simp add: parse_titles_def Let_def)
  have ne: "\<forall>t\<in>set (parse_titles x). t \<noteq> []" for x
    by (auto simp: parse_titles_def Let_def dest: in_set_takeD)
  have emp: "parse_titles raw = [] \<longleftrightarrow>
        \<not> (\<exists>l\<in>set (split NL raw). strip l \<noteq> [] \<and> strip_chars bullet_chars l \<noteq> [])"
    by (auto simp: parse_titles_def Let_def filter_empty_conv)
  have fb: "generator pr n (title_request topic @ [NL] @ str ''1.'') 80 = Inr raw \<longrightarrow>
        fallback_titles pr n topic = Inr (parse_titles raw)"
    by (simp add: fallback_titles_def Let_def)
  have fe: "\<forall>e. generator pr n (title_request topic @ [NL] @ str ''1.'') 80 = Inl e \<longrightarrow>
        fallback_titles pr n topic = Inl e"
    by (simp add: fallback_titles_def Let_def)
  have nk: "key = None \<or> key = Some [] \<longrightarrow>
        generate_slide_titles pr n topic key = ([], fallback_titles pr n topic)"
    by auto
  have ho: "\<forall>k. key = Some k \<and> k \<noteq> []
            \<and> chat pr n k title_system (title_request topic) = Inr (Some raw)
            \<and> parse_titles raw \<noteq> [] \<longrightarrow>
          generate_slide_titles pr n topic key = ([], Inr (parse_titles raw))"
    by (simp add: hosted_titles_def)
  have hf: "\<forall>k ts. key = Some k \<and> k \<noteq> []
            \<and> (\<forall>content. chat pr n k title_system (title_request topic) = Inr (Some content)
                  \<longrightarrow> parse_titles content = [])
            \<and> fallback_titles pr (n + 1) topic = Inr ts \<longrightarrow>
          snd (generate_slide_titles pr n topic key) = Inr ts"
    by (auto simp: hosted_titles_def split: sum.splits option.splits)
  have fbs: "\<exists>x. ts = parse_titles x" if "fallback_titles pr m topic = Inr ts" for m ts
    using that by (auto simp: fallback_titles_def Let_def split: sum.splits)
  have hos: "\<exists>x. ts = parse_titles x" if "hosted_titles pr m topic k = Inr ts" for m ts k
    using that by (auto simp: hosted_titles_def split: sum.splits option.splits)
  have sh: "\<forall>ts. snd (generate_slide_titles pr n topic key) = Inr ts \<longrightarrow>
          length ts \<le> 5 \<and> (\<forall>t\<in>set ts. t \<noteq> [])"
  proof (intro allI impI)
    fix ts assume r: "snd (generate_slide_titles pr n topic key) = Inr ts"
    have "\<exists>x. ts = parse_titles x"
    proof (cases key)
      case None
      with r fbs show ?thesis by simp
    next
      case (Some k)
      with r fbs hos show ?thesis by (auto split: if_splits sum.splits)
    qed
    with len ne show "length ts \<le> 5 \<and> (\<forall>t\<in>set ts. t \<noteq> [])" by blast
  qed
  from len [of raw] ne [of raw] emp fb fe nk ho hf sh show ?thesis by blast
qed

theorem parse_titles_shape_witness:
  "parse_titles sample_text = [str ''Intro'', str ''Trends in'']
   \<and> length (parse_titles sample_text) \<le> 5
   \<and> str ''Intro'' \<in> set (parse_titles sample_text) \<and> str ''Intro'' \<noteq> []
   \<and> sample_key \<noteq> []
   \<and> chat year_providers 0 sample_key title_system (title_request (str ''AI''))
        = Inr (Some sample_text)
   \<and> generate_slide_titles year_providers 0 (str ''AI'') (Some sample_key)
        = ([], Inr [str ''Intro'', str ''Trends in''])
   \<and> generate_slide_titles year_providers 0 (str ''AI'') (Some [])
        = ([], Inr [str ''Generate 5 professional PowerPoint slide titles about: AI'',
                    str ''Intro'', str ''Trends in''])"
proof -
  have e: "parse_titles sample_text = [str ''Intro'', str ''Trends in'']"
    by (simp add: parse_titles_def sample_text_def string_defs)
  have k: "sample_key \<noteq> []" by (simp add: sample_key_def str_def)
  have c: "chat year_providers 0 sample_key title_system (title_request (str ''AI''))
        = Inr (Some sample_text)"
    by (simp add: year_providers_def)
  have g: "generator year_providers 0 (title_request (str ''AI'') @ [NL] @ str ''1.'') 80
        = Inr ((title_request (str ''AI'') @ [NL] @ str ''1.'') @ str '' Intro'' @ [NL]
               @ str ''2. Trends in 2024'')"
    by (simp add: year_providers_def)
  have f: "parse_titles ((title_request (str ''AI'') @ [NL] @ str ''1.'') @ str '' Intro'' @ [NL]
               @ str ''2. Trends in 2024'')
        = [str ''Generate 5 professional PowerPoint slide titles about: AI'',
           str ''Intro'', str ''Trends in'']"
    by (simp add: parse_titles_def title_request_def string_defs)
  note h = parse_titles_shape [of sample_text year_providers 0 "str ''AI''" "Some sample_key"]
  from h have "length (parse_titles sample_text) \<le> 5"
    and "\<forall>t\<in>set (parse_titles sample_text). t \<noteq> []"
    by blast+
  moreover from h k c e
  have "generate_slide_titles year_providers 0 (str ''AI'') (Some sample_key)
        = ([], Inr [str ''Intro'', str ''Trends in''])"
    by simp
  moreover
  note h2 = parse_titles_shape [of "(title_request (str ''AI'') @ [NL] @ str ''1.'') @ str '' Intro''
      @ [NL] @ str ''2. Trends in 2024''" year_providers 0 "str ''AI''" "Some []"]
  from h2 g f
  have "generate_slide_titles year_providers 0 (str ''AI'') (Some [])
        = ([], Inr [str ''Generate 5 professional PowerPoint slide titles about: AI'',
                    str ''Intro'', str ''Trends in''])"
    by simp
  ultimately show ?thesis using e k c by (simp add: str_def)
qed

text \<open>
  C2 holds of a parser that strips the left edge; the code strips both edges. The line
  \<open>Trends in 2024\<close> starts with no bullet or numeral and has no blank around it, and the
  parser returns \<open>Trends in\<close>; on the hosted path and on the fallback path alike, the
  numbered line \<open>2. Trends in 2024\<close> comes out as the title \<open>Trends in\<close>.
\<close>

theorem titles_lose_trailing_digits:
  "hd sample_line \<notin> set bullet_chars
   \<and> strip sample_line = sample_line
   \<and> parse_titles sample_line = [str ''Trends in'']
   \<and> parse_titles sample_text = [str ''Intro'', str ''Trends in'']
   \<and> snd (generate_slide_titles year_providers 0 (str ''AI'') (Some sample_key))
       = Inr [str ''Intro'', str ''Trends in'']
   \<and> snd (generate_slide_titles year_providers 0 (str ''AI'') None)
       = Inr [str ''Generate 5 professional PowerPoint slide titles about: AI'',
              str ''Intro'', str ''Trends in'']"
  by (simp add: parse_titles_def sample_line_def sample_text_def sample_key_def
      year_providers_def hosted_titles_def fallback_titles_def title_request_def string_defs)

section \<open>The content generator\<close>

text \<open>
  C3, as the claim states it, fails: without a key, when the local model adds nothing but
  a newline to the prompt, which ends in a colon, the function returns the empty string,
  which is neither a non-empty paragraph nor the sentinel.
\<close>

theorem empty_content_counterexample:
  "snd (generate_slide_content echo_providers 0 (str ''AI'') None) = Inr []
   \<and> [] \<noteq> sentinel"
  by (simp add: generate_slide_content_def local_content_def echo_providers_def last_item_def
      content_prompt_def sentinel_def string_defs)

text \<open>\<open>split\<close> never returns the empty list, so \<open>[-1]\<close> never raises.\<close>

lemma local_content_cases:
  "local_content pr n title =
     (case generator pr n (content_prompt title) 120 of
        Inl e \<Rightarrow> Inl e
      | Inr raw \<Rightarrow> Inr (strip (last (split colon raw))))"
  by (simp add: local_content_def last_item_def split_not_Nil split: sum.splits)

text \<open>
  C3, amended. For every title, key and behaviour of the two backends,
  \<open>generate_slide_content\<close> returns a string and no exception leaves it. With a key the
  string is the trimmed content of the hosted answer, and the sentinel when the request
  raises or the content is \<open>None\<close>; without a key it is the trimmed segment after the last
  colon of the local model's text, and the sentinel when the local model raises. The
  trimmed text may be empty.
\<close>

theorem generate_slide_content_total:
  "(\<exists>s. snd (generate_slide_content pr n title key) = Inr s)
   \<and> (\<forall>k. key = Some k \<and> k \<noteq> [] \<longrightarrow>
         snd (generate_slide_content pr n title key) =
           Inr (case chat pr n k content_system (content_request title) of
                  Inr (Some content) \<Rightarrow> strip content
                | Inr None \<Rightarrow> sentinel
                | Inl e \<Rightarrow> sentinel))
   \<and> (key = None \<or> key = Some [] \<longrightarrow>
         snd (generate_slide_content pr n title key) =
           Inr (case generator pr n (content_prompt title) 120 of
                  Inr raw \<Rightarrow> strip (last (split colon raw))
                | Inl e \<Rightarrow> sentinel))"
proof (intro conjI allI impI)
  show "\<exists>s. snd (generate_slide_content pr n title key) = Inr s"
    by (simp add: generate_slide_content_def split: sum.splits)
next
  fix k assume "key = Some k \<and> k \<noteq> []"
  then show "snd (generate_slide_content pr n title key) =
           Inr (case chat pr n k content_system (content_request title) of
                  Inr (Some content) \<Rightarrow> strip content
                | Inr None \<Rightarrow> sentinel
                | Inl e \<Rightarrow> sentinel)"
    by (simp add: generate_slide_content_def split: sum.splits option.splits)
next
  assume "key = None \<or> key = Some []"
  then show "snd (generate_slide_content pr n title key) =
           Inr (case generator pr n (content_prompt title) 120 of
                  Inr raw \<Rightarrow> strip (last (split colon raw))
                | Inl e \<Rightarrow> sentinel)"
    by (auto simp: generate_slide_content_def local_content_cases split: sum.splits)
qed

theorem generate_slide_content_total_witness:
  "sample_key \<noteq> []
   \<and> snd (generate_slide_content echo_providers 0 (str ''AI'') (Some sample_key)) = Inr sentinel
   \<and> snd (generate_slide_content echo_providers 0 (str ''AI'') (Some [])) = Inr []"
proof -
  have k: "sample_key \<noteq> []" by (simp add: sample_key_def str_def)
  have g: "strip (last (split colon (content_prompt (str ''AI'') @ [NL]))) = []"
    by (simp add: content_prompt_def string_defs)
  from generate_slide_content_total [of echo_providers 0 "str ''AI''" "Some sample_key"] k
  have "snd (generate_slide_content echo_providers 0 (str ''AI'') (Some sample_key)) = Inr sentinel"
    by (simp add: echo_providers_def)
  moreover from generate_slide_content_total [of echo_providers 0 "str ''AI''" "Some []"] g
  have "snd (generate_slide_content echo_providers 0 (str ''AI'') (Some [])) = Inr []"
    by (simp add: echo_providers_def)
  ultimately show ?thesis using k by simp
qed

text \<open>
  C10. Without a key, for every text the local model returns, the paragraph returned is
  the trimmed last piece of the text split at colons. It holds no colon; when the text
  has a colon, everything up to the last one is dropped, whatever the model wrote there;
  a text without colon is returned whole, trimmed.
\<close>

theorem local_content_after_last_colon:
  assumes "key = None \<or> key = Some []"
    and "generator pr n (content_prompt title) 120 = Inr raw"
  shows "snd (generate_slide_content pr n title key) = Inr (strip (last (split colon raw)))
         \<and> colon \<notin> set (strip (last (split colon raw)))
         \<and> (\<forall>pre suf. raw = pre @ colon # suf \<and> colon \<notin> set suf \<longrightarrow>
               snd (generate_slide_content pr n title key) = Inr (strip suf))
         \<and> (colon \<notin> set raw \<longrightarrow> snd (generate_slide_content pr n title key) = Inr (strip raw))"
proof -
  have r: "snd (generate_slide_content pr n title key) = Inr (strip (last (split colon raw)))"
    using assms by (auto simp: generate_slide_content_def local_content_cases)
  have "colon \<notin> set (strip (last (split colon raw)))"
    using set_strip_with [of isspace "last (split colon raw)"] last_split_no_sep [of colon raw]
    by (auto simp: strip_def)
  with r show ?thesis
    by (auto simp: last_split_append split_no_sep)
qed

theorem local_content_after_last_colon_witness:
  "generator colon_providers 0 (content_prompt (str ''AI'')) 120
     = Inr (content_prompt (str ''AI'') @ str '' Two parts: a and b. '')
   \<and> snd (generate_slide_content colon_providers 0 (str ''AI'') None) = Inr (str ''a and b.'')
   \<and> colon \<notin> set (str ''a and b.'')"
proof -
  have g: "generator colon_providers 0 (content_prompt (str ''AI'')) 120
     = Inr (content_prompt (str ''AI'') @ str '' Two parts: a and b. '')"
    by (simp add: colon_providers_def)
  have s: "strip (last (split colon (content_prompt (str ''AI'') @ str '' Two parts: a and b. '')))
             = str ''a and b.''"
    by (simp add: content_prompt_def string_defs)
  from local_content_after_last_colon [OF _ g, of None] s
  have "snd (generate_slide_content colon_providers 0 (str ''AI'') None) = Inr (str ''a and b.'')
        \<and> colon \<notin> set (str ''a and b.'')"
    by simp
  with g show ?thesis by simp
qed

section \<open>Colour parsing\<close>

lemmas color_defs = white_def black_def red_def well_formed_hex_def hexdigit_def
  colors_well_formed_def border_drawn_def str_def

lemmas int16_defs = int16_def to_ascii_def lstrip_with_def rstrip_with_def digits16_def
  digit16_def ascii_space_def slice_def RGBColor_def rgb_of_hex_def

lemma hexdigit_facts:
  assumes "hexdigit c"
  shows "c < 127" "\<not> ascii_space c" "c \<noteq> 43" "c \<noteq> 45" "c \<noteq> 95" "c \<noteq> 120" "c \<noteq> 88"
    "\<exists>v<16. digit16 c = Some v"
  using assms by (auto simp: hexdigit_def str_def ascii_space_def digit16_def)

lemma int16_hex_pair:
  assumes "hexdigit a" and "hexdigit b"
  shows "\<exists>v. int16 ev [a, b] = Inr v \<and> 0 \<le> v \<and> v \<le> 255"
proof -
  from hexdigit_facts(8) [OF assms(1)] obtain va where va: "va < 16" "digit16 a = Some va" by blast
  from hexdigit_facts(8) [OF assms(2)] obtain vb where vb: "vb < 16" "digit16 b = Some vb" by blast
  have "int16 ev [a, b] = Inr (int (16 * va + vb))"
    using hexdigit_facts(1-7) [OF assms(1)] hexdigit_facts(1-7) [OF assms(2)] va vb
    by (simp add: int16_def to_ascii_def lstrip_with_def rstrip_with_def digits16_def)
  moreover have "int (16 * va + vb) \<le> 255" using va(1) vb(1) by simp
  ultimately show ?thesis by simp
qed

lemma well_formed_hex_shape:
  assumes "well_formed_hex c"
  obtains d1 d2 d3 d4 d5 d6 where "c = [35, d1, d2, d3, d4, d5, d6]"
    "hexdigit d1" "hexdigit d2" "hexdigit d3" "hexdigit d4" "hexdigit d5" "hexdigit d6"
proof -
  from assms obtain ds where c: "c = 35 # ds" "length ds = 6" "list_all hexdigit ds"
    by (auto simp: well_formed_hex_def split: list.splits)
  from c(2) obtain d1 d2 d3 d4 d5 d6 where "ds = [d1, d2, d3, d4, d5, d6]"
    by (auto simp: length_Suc_conv eval_nat_numeral)
  with c that show ?thesis by simp
qed

lemma rgb_of_hex_well_formed:
  assumes "well_formed_hex c"
  shows "\<exists>v. rgb_of_hex ev c = Inr v"
proof -
  from assms obtain d1 d2 d3 d4 d5 d6 where c: "c = [35, d1, d2, d3, d4, d5, d6]"
    and h: "hexdigit d1" "hexdigit d2" "hexdigit d3" "hexdigit d4" "hexdigit d5" "hexdigit d6"
    by (rule well_formed_hex_shape)
  from int16_hex_pair [OF h(1,2)] obtain r where r: "int16 ev [d1, d2] = Inr r" "0 \<le> r" "r \<le> 255"
    by blast
  from int16_hex_pair [OF h(3,4)] obtain g where g: "int16 ev [d3, d4] = Inr g" "0 \<le> g" "g \<le> 255"
    by blast
  from int16_hex_pair [OF h(5,6)] obtain b where b: "int16 ev [d5, d6] = Inr b" "0 \<le> b" "b \<le> 255"
    by blast
  show ?thesis
    using r g b by (simp add: rgb_of_hex_def slice_def c RGBColor_def)
qed

lemma int16_error: "int16 ev s = Inl e \<Longrightarrow> e = ValueError InvalidLiteral"
  by (auto simp: int16_def Let_def split: option.splits prod.splits)

lemma rgb_of_hex_error: "rgb_of_hex ev c = Inl e \<Longrightarrow> color_error e"
  by (auto simp: rgb_of_hex_def RGBColor_def color_error_def split: sum.splits if_splits
      dest: int16_error)

section \<open>The text of a shape\<close>

lemmas text_defs = set_text_def append_text_def run_items_def add_r_def set_node_text_def
  escape_ctrl_chars_def ctrl_char_def escape_char_def hex_upper_def surrogate_def
  xml_forbidden_def shape_text_def paragraph_text_def

lemmas valid_defs = sizes_valid_def texts_compatible_def xml_compatible_def surrogate_def
  border_drawn_def str_def

lemma for_each_Inr_D: "for_each f xs = Inr ys \<Longrightarrow> list_all2 (\<lambda>x y. f x = Inr y) xs ys"
  by (induction xs arbitrary: ys) (auto split: sum.splits)

lemma for_each_Inr_I: "list_all2 (\<lambda>x y. f x = Inr y) xs ys \<Longrightarrow> for_each f xs = Inr ys"
  by (induction rule: list_all2_induct) auto

lemma for_each_Inl: "for_each f xs = Inl e \<Longrightarrow> \<exists>x\<in>set xs. f x = Inl e"
  by (induction xs) (auto split: sum.splits)

lemma for_each_succeeds:
  "(\<And>x. x \<in> set xs \<Longrightarrow> \<exists>y. f x = Inr y) \<Longrightarrow> \<exists>ys. for_each f xs = Inr ys"
proof (induction xs)
  case Nil
  show ?case by simp
next
  case (Cons x xs)
  then obtain y ys where "f x = Inr y" "for_each f xs = Inr ys" by (meson list.set_intros)
  then show ?case by simp
qed

lemma for_each_map:
  "for_each f xs = Inr ys \<Longrightarrow> (\<And>x y. x \<in> set xs \<Longrightarrow> f x = Inr y \<Longrightarrow> h y = k x)
     \<Longrightarrow> map h ys = map k xs"
  by (induction xs arbitrary: ys) (auto split: sum.splits)

lemma run_items_Inr: "run_items w = Inr its \<Longrightarrow> paragraph_text its = escape_ctrl_chars w"
  by (auto simp: run_items_def add_r_def set_node_text_def paragraph_text_def escape_ctrl_chars_def
      split: if_splits sum.splits)

lemma more_items_Inr:
  "more_items ws = Inr its \<Longrightarrow>
     paragraph_text its = concat (map (\<lambda>w. [VT] @ escape_ctrl_chars w) ws)"
proof (induction ws arbitrary: its)
  case Nil
  then show ?case by (simp add: paragraph_text_def)
next
  case (Cons w ws)
  from Cons.prems obtain a b where a: "run_items w = Inr a" and b: "more_items ws = Inr b"
    and its: "its = Break # a @ b"
    by (auto split: sum.splits)
  from run_items_Inr [OF a] Cons.IH [OF b] its show ?case
    by (simp add: paragraph_text_def)
qed

lemma append_text_Inr:
  assumes "append_text t = Inr its"
  shows "paragraph_text its = escaped t"
proof -
  let ?g = "\<lambda>c. if ctrl_char c \<and> c \<noteq> VT then escape_char c else [c]"
  obtain w ws where sp: "split VT t = w # ws"
    by (cases "split VT t") (auto simp: split_not_Nil)
  with assms obtain a b where a: "run_items w = Inr a" and b: "more_items ws = Inr b"
    and its: "its = a @ b"
    by (auto simp: append_text_def split: sum.splits)
  have "paragraph_text its = join [VT] (map escape_ctrl_chars (split VT t))"
    using run_items_Inr [OF a] more_items_Inr [OF b] its sp
    by (simp add: paragraph_text_def join_Cons comp_def)
  also have "map escape_ctrl_chars (split VT t) = map (\<lambda>w. concat (map ?g w)) (split VT t)"
  proof (rule map_cong [OF refl])
    fix w assume "w \<in> set (split VT t)"
    then have "VT \<notin> set w" by (rule split_pieces)
    then have "map (\<lambda>c. if ctrl_char c then escape_char c else [c]) w = map ?g w"
      by (intro map_cong) auto
    then show "escape_ctrl_chars w = concat (map ?g w)"
      unfolding escape_ctrl_chars_def by (rule arg_cong)
  qed
  also have "join [VT] \<dots> = concat (map ?g t)"
    by (rule join_split) simp
  finally show ?thesis by (simp add: escaped_def)
qed

lemma set_text_Inr:
  assumes "set_text t sh = Inr sh'"
  shows "shape_text sh' = escaped t" and "ph_idx sh' = ph_idx sh" and "outline sh' = outline sh"
proof -
  let ?g = "\<lambda>c. if ctrl_char c \<and> c \<noteq> VT then escape_char c else [c]"
  from assms obtain ps where ps: "for_each append_text (split NL t) = Inr ps"
    and sh': "sh' = sh\<lparr>paragraphs := ps\<rparr>"
    by (auto simp: set_text_def split: sum.splits)
  have "map paragraph_text ps = map escaped (split NL t)"
    using ps by (rule for_each_map) (rule append_text_Inr)
  moreover have "escaped = (\<lambda>w. concat (map ?g w))"
    by (rule ext) (simp add: escaped_def)
  ultimately have "shape_text sh' = join [NL] (map (\<lambda>w. concat (map ?g w)) (split NL t))"
    by (simp add: shape_text_def sh')
  also have "\<dots> = concat (map ?g t)"
    by (rule join_split) (simp add: ctrl_char_def)
  finally show "shape_text sh' = escaped t" by (simp add: escaped_def)
  show "ph_idx sh' = ph_idx sh" and "outline sh' = outline sh" by (simp_all add: sh')
qed

lemma escaped_plain: "plain t \<Longrightarrow> escaped t = t"
  by (induction t) (auto simp: plain_def escaped_def)

lemma hex_upper_range: "d < 16 \<Longrightarrow> 48 \<le> hex_upper d \<and> hex_upper d \<le> 70"
  by (simp add: hex_upper_def)

lemma escape_char_range: "x \<in> set (escape_char c) \<Longrightarrow> 48 \<le> x \<and> x \<le> 120"
proof -
  assume x: "x \<in> set (escape_char c)"
  have h: "48 \<le> hex_upper (d mod 16) \<and> hex_upper (d mod 16) \<le> 70" for d
    by (rule hex_upper_range) simp
  from x consider "x = 95" | "x = 120" | "x = hex_upper (c div 4096 mod 16)"
    | "x = hex_upper (c div 256 mod 16)" | "x = hex_upper (c div 16 mod 16)"
    | "x = hex_upper (c mod 16)"
    by (auto simp: escape_char_def)
  then show ?thesis
    using h [of "c div 4096"] h [of "c div 256"] h [of "c div 16"] h [of c]
    by cases simp_all
qed

lemma escape_ctrl_chars_set:
  "x \<in> set (escape_ctrl_chars w) \<Longrightarrow> (x \<in> set w \<and> \<not> ctrl_char x) \<or> (48 \<le> x \<and> x \<le> 120)"
  by (auto simp: escape_ctrl_chars_def split: if_splits dest: escape_char_range)

lemma add_r_succeeds:
  assumes "xml_compatible w"
  shows "\<exists>r. add_r w = Inr r"
proof -
  have "\<not> surrogate x \<and> \<not> xml_forbidden x" if "x \<in> set (escape_ctrl_chars w)" for x
    using escape_ctrl_chars_set [OF that] assms
    by (auto simp: xml_compatible_def list_ex_iff surrogate_def xml_forbidden_def ctrl_char_def)
  then have "set_node_text (escape_ctrl_chars w) = Inr (escape_ctrl_chars w)"
    by (auto simp: set_node_text_def list_ex_iff)
  then show ?thesis by (simp add: add_r_def)
qed

lemma run_items_Inl: "run_items w = Inl e \<Longrightarrow> text_error e"
  by (auto simp: run_items_def add_r_def set_node_text_def text_error_def
      split: if_splits sum.splits)

lemma more_items_Inl: "more_items ws = Inl e \<Longrightarrow> text_error e"
  by (induction ws) (auto split: sum.splits dest: run_items_Inl)

lemma append_text_Inl: "append_text t = Inl e \<Longrightarrow> text_error e"
  by (auto simp: append_text_def split: list.splits sum.splits
      dest: run_items_Inl more_items_Inl)

lemma set_text_Inl: "set_text t sh = Inl e \<Longrightarrow> text_error e"
  by (auto simp: set_text_def split: sum.splits dest!: for_each_Inl append_text_Inl)

lemma xml_compatible_piece:
  "xml_compatible t \<Longrightarrow> w \<in> set (split sep t) \<Longrightarrow> xml_compatible w"
  by (auto simp: xml_compatible_def list_ex_iff dest: split_subset)

lemma run_items_succeeds: "xml_compatible w \<Longrightarrow> \<exists>its. run_items w = Inr its"
  using add_r_succeeds [of w] by (auto simp: run_items_def)

lemma more_items_succeeds:
  "(\<And>w. w \<in> set ws \<Longrightarrow> xml_compatible w) \<Longrightarrow> \<exists>its. more_items ws = Inr its"
proof (induction ws)
  case Nil
  show ?case by simp
next
  case (Cons w ws)
  from Cons.prems run_items_succeeds [of w] obtain a where "run_items w = Inr a" by auto
  moreover from Cons obtain b where "more_items ws = Inr b" by auto
  ultimately show ?case by simp
qed

lemma append_text_succeeds:
  assumes "xml_compatible t"
  shows "\<exists>its. append_text t = Inr its"
proof -
  obtain w ws where sp: "split VT t = w # ws"
    by (cases "split VT t") (auto simp: split_not_Nil)
  have c: "xml_compatible v" if "v \<in> set (w # ws)" for v
    using xml_compatible_piece [OF assms, of v VT] that sp by simp
  from run_items_succeeds [OF c [of w]] obtain a where a: "run_items w = Inr a" by auto
  from more_items_succeeds [of ws] c obtain b where b: "more_items ws = Inr b" by auto
  from sp a b show ?thesis by (simp add: append_text_def)
qed

lemma set_text_succeeds:
  assumes "xml_compatible t"
  shows "\<exists>sh'. set_text t sh = Inr sh'"
proof -
  have "\<exists>ps. for_each append_text (split NL t) = Inr ps"
    by (rule for_each_succeeds) (rule append_text_succeeds, rule xml_compatible_piece [OF assms])
  then show ?thesis by (auto simp: set_text_def)
qed

section \<open>Building slides\<close>

lemmas deck_defs = create_ppt_def title_slide_def content_slide_def on_title_def add_slide_def
  new_placeholder_def set_background_def style_runs_def style_run_def set_font_size_def
  fill_placeholder_def draw_border_def set_line_width_def add_default_picture_def Pt_def
  output_path_def safe_topic_def isalnum_def title_text_def body_text_def

lemma Pt_centipoints: "Pt n div 127 = n * 100"
  by (simp add: Pt_def)

lemma style_item_text: "style_item ev sz color it = Inr it' \<Longrightarrow> item_text it' = item_text it"
  by (cases it)
    (auto simp: style_run_def set_font_size_def Let_def split: sum.splits if_splits)

lemma style_runs_Inr:
  assumes "style_runs ev sz color sh = Inr sh'"
  shows "ph_idx sh' = ph_idx sh \<and> shape_text sh' = shape_text sh \<and> outline sh' = outline sh"
proof -
  from assms obtain ps where ps: "for_each (for_each (style_item ev sz color)) (paragraphs sh) = Inr ps"
    and sh': "sh' = sh\<lparr>paragraphs := ps\<rparr>"
    by (auto simp: style_runs_def split: sum.splits)
  have "paragraph_text p' = paragraph_text p"
    if "for_each (style_item ev sz color) p = Inr p'" for p p'
    using for_each_map [OF that, of item_text item_text] style_item_text
    by (auto simp: paragraph_text_def)
  with ps have "map paragraph_text ps = map paragraph_text (paragraphs sh)"
    by (rule for_each_map [where h = paragraph_text and k = paragraph_text])
  then show ?thesis by (simp add: sh' shape_text_def)
qed

lemma style_item_succeeds:
  assumes "1 \<le> sz" and "sz \<le> 4000" and "rgb_of_hex ev color = Inr c"
  shows "\<exists>it'. style_item ev sz color it = Inr it'"
  using assms
  by (cases it) (auto simp: style_run_def set_font_size_def Pt_centipoints)

lemma style_runs_succeeds:
  assumes "1 \<le> sz" and "sz \<le> 4000" and "rgb_of_hex ev color = Inr c"
  shows "\<exists>sh'. style_runs ev sz color sh = Inr sh'"
proof -
  have b: "\<exists>p'. for_each (style_item ev sz color) p = Inr p'" for p
    by (rule for_each_succeeds) (rule style_item_succeeds [OF assms])
  have "\<exists>ps. for_each (for_each (style_item ev sz color)) (paragraphs sh) = Inr ps"
    by (rule for_each_succeeds) (rule b)
  then show ?thesis by (auto simp: style_runs_def)
qed

lemma style_item_Inl:
  "style_item ev sz color it = Inl e \<Longrightarrow>
     e = ValueError FontSizeRange \<or> rgb_of_hex ev color = Inl e"
  by (cases it)
    (auto simp: style_run_def set_font_size_def Let_def split: sum.splits if_splits)

lemma style_runs_Inl:
  "style_runs ev sz color sh = Inl e \<Longrightarrow>
     e = ValueError FontSizeRange \<or> rgb_of_hex ev color = Inl e"
  by (auto simp: style_runs_def split: sum.splits dest!: for_each_Inl style_item_Inl)

lemma draw_border_Inr:
  "draw_border ev bc bw sh = Inr sh' \<Longrightarrow>
     ph_idx sh' = ph_idx sh \<and> shape_text sh' = shape_text sh
     \<and> (\<not> border_drawn bc bw \<longrightarrow> sh' = sh)"
  by (auto simp: draw_border_def border_drawn_def set_line_width_def shape_text_def
      split: option.splits if_splits sum.splits)

lemma draw_border_not_drawn: "\<not> border_drawn bc bw \<Longrightarrow> draw_border ev bc bw sh = Inr sh"
  by (auto simp: draw_border_def border_drawn_def split: option.splits)

lemma draw_border_Inl:
  "draw_border ev bc bw sh = Inl e \<Longrightarrow>
     border_drawn bc bw
     \<and> (e = ValueError LineWidthRange \<or> (\<exists>b. bc = Some b \<and> rgb_of_hex ev b = Inl e))"
  by (auto simp: draw_border_def border_drawn_def set_line_width_def
      split: option.splits if_splits sum.splits)

lemma draw_border_succeeds:
  assumes "border_drawn bc bw \<longrightarrow> (case bc of None \<Rightarrow> False | Some b \<Rightarrow> well_formed_hex b)"
    and "border_drawn bc bw \<longrightarrow> bw \<le> 1584"
  shows "\<exists>sh'. draw_border ev bc bw sh = Inr sh'"
proof (cases "border_drawn bc bw")
  case False
  then show ?thesis by (simp add: draw_border_not_drawn)
next
  case True
  with assms obtain b where b: "bc = Some b" "well_formed_hex b" and w: "bw \<le> 1584"
    by (auto split: option.splits)
  from rgb_of_hex_well_formed [OF b(2)] obtain v where "rgb_of_hex ev b = Inr v" by blast
  then show ?thesis
    using b(1) w True by (simp add: draw_border_def set_line_width_def Pt_def border_drawn_def)
qed

lemma set_text_Inr_all:
  "set_text t sh = Inr sh' \<Longrightarrow>
     shape_text sh' = escaped t \<and> ph_idx sh' = ph_idx sh \<and> outline sh' = outline sh"
  using set_text_Inr [of t sh sh'] by simp

lemma fill_placeholder_Inr:
  assumes "fill_placeholder ev content cc cs bc bw sh = Inr sh'"
  shows "ph_idx sh' = ph_idx sh"
    and "shape_text sh' = (if ph_idx sh = 1 then escaped content else shape_text sh)"
    and "\<not> border_drawn bc bw \<Longrightarrow> outline sh' = outline sh"
  using assms
  by (auto simp: fill_placeholder_def split: if_splits sum.splits
      dest!: set_text_Inr_all style_runs_Inr draw_border_Inr)

lemma title_slide_Inr:
  assumes "title_slide ev topic bg tc ts = Inr s"
  shows "\<exists>p0. placeholders s = [p0, new_placeholder 1] \<and> ph_idx p0 = 0
           \<and> shape_text p0 = escaped topic \<and> outline p0 = None \<and> layout s = 0"
  using assms
  by (auto simp: title_slide_def on_title_def add_slide_def new_placeholder_def
      set_background_def split: sum.splits if_splits dest!: set_text_Inr_all style_runs_Inr)

lemma content_slide_Inr:
  assumes "content_slide ev bg tc cc ts cs bc bw (t, c) = Inr s"
  shows "\<exists>p0 p1. placeholders s = [p0, p1] \<and> ph_idx p0 = 0 \<and> shape_text p0 = escaped t
           \<and> outline p0 = None \<and> ph_idx p1 = 1 \<and> shape_text p1 = escaped c
           \<and> (\<not> border_drawn bc bw \<longrightarrow> outline p1 = None)"
  using assms
  by (auto simp: content_slide_def on_title_def add_slide_def new_placeholder_def
      set_background_def add_default_picture_def fill_placeholder_def
      split: sum.splits if_splits image_file.splits
      dest!: set_text_Inr_all style_runs_Inr draw_border_Inr)

lemma title_slide_succeeds:
  assumes "well_formed_hex bg" and "well_formed_hex tc" and "xml_compatible topic"
    and "1 \<le> ts" and "ts \<le> 4000"
  shows "\<exists>s. title_slide ev topic bg tc ts = Inr s"
proof -
  from rgb_of_hex_well_formed [OF assms(1)] obtain b where b: "rgb_of_hex ev bg = Inr b" by blast
  from rgb_of_hex_well_formed [OF assms(2)] obtain c where c: "rgb_of_hex ev tc = Inr c" by blast
  from set_text_succeeds [OF assms(3)] obtain q
    where q: "set_text topic (new_placeholder 0) = Inr q" by blast
  from set_text_Inr(2) [OF q] have i: "ph_idx q = 0" by (simp add: new_placeholder_def)
  from style_runs_succeeds [OF assms(4,5) c] obtain q'
    where "style_runs ev ts tc q = Inr q'" by blast
  then show ?thesis
    using b q i
    by (simp add: title_slide_def on_title_def add_slide_def set_background_def
        new_placeholder_def)
qed

lemma content_slide_succeeds:
  assumes "colors_well_formed bg tc cc bc bw" and "sizes_valid ts cs bc bw"
    and "xml_compatible (fst x)" and "xml_compatible (snd x)"
    and "default_image ev \<noteq> Damaged"
  shows "\<exists>s. content_slide ev bg tc cc ts cs bc bw x = Inr s"
proof -
  from assms(1) have wf: "well_formed_hex bg" "well_formed_hex tc" "well_formed_hex cc"
    and bd: "border_drawn bc bw \<longrightarrow> (case bc of None \<Rightarrow> False | Some b \<Rightarrow> well_formed_hex b)"
    by (simp_all add: colors_well_formed_def)
  from assms(2) have sz: "1 \<le> ts" "ts \<le> 4000" "1 \<le> cs" "cs \<le> 4000"
    and bw: "border_drawn bc bw \<longrightarrow> bw \<le> 1584"
    by (simp_all add: sizes_valid_def)
  from rgb_of_hex_well_formed [OF wf(1)] obtain b where b: "rgb_of_hex ev bg = Inr b" by blast
  from rgb_of_hex_well_formed [OF wf(2)] obtain c where c: "rgb_of_hex ev tc = Inr c" by blast
  from rgb_of_hex_well_formed [OF wf(3)] obtain d where d: "rgb_of_hex ev cc = Inr d" by blast
  from set_text_succeeds [OF assms(3)] obtain q
    where q: "set_text (fst x) (new_placeholder 0) = Inr q" by blast
  from set_text_Inr(2) [OF q] have i: "ph_idx q = 0" by (simp add: new_placeholder_def)
  from style_runs_succeeds [OF sz(1,2) c] obtain p0
    where p0: "style_runs ev ts tc q = Inr p0" by blast
  have i0: "ph_idx p0 = 0" using style_runs_Inr [OF p0] i by simp
  from set_text_succeeds [OF assms(4)] obtain r
    where r: "set_text (snd x) (new_placeholder 1) = Inr r" by blast
  from style_runs_succeeds [OF sz(3,4) d] obtain r'
    where r': "style_runs ev cs cc r = Inr r'" by blast
  from draw_border_succeeds [OF bd bw] obtain p1
    where p1: "draw_border ev bc bw r' = Inr p1" by blast
  show ?thesis
    using b q i p0 i0 r r' p1 assms(5)
    by (simp add: content_slide_def on_title_def add_slide_def set_background_def
        new_placeholder_def fill_placeholder_def add_default_picture_def
        split: image_file.splits)
qed

lemma title_slide_Inl:
  assumes "title_slide ev topic bg tc ts = Inl e"
  shows "text_error e \<or> e = ValueError FontSizeRange
         \<or> rgb_of_hex ev bg = Inl e \<or> rgb_of_hex ev tc = Inl e"
  using assms
  by (auto simp: title_slide_def on_title_def add_slide_def new_placeholder_def
      set_background_def split: sum.splits if_splits
      dest!: set_text_Inr_all set_text_Inl style_runs_Inl)

lemma fill_placeholder_Inl:
  assumes "fill_placeholder ev content cc cs bc bw sh = Inl e"
  shows "text_error e \<or> e = ValueError FontSizeRange \<or> e = ValueError LineWidthRange
         \<or> rgb_of_hex ev cc = Inl e
         \<or> (border_drawn bc bw \<and> (\<exists>b. bc = Some b \<and> rgb_of_hex ev b = Inl e))"
  using assms
  by (auto simp: fill_placeholder_def split: if_splits sum.splits
      dest!: set_text_Inl style_runs_Inl draw_border_Inl)

lemma content_slide_Inl:
  assumes "content_slide ev bg tc cc ts cs bc bw x = Inl e"
  shows "text_error e \<or> e = ValueError FontSizeRange \<or> e = ValueError LineWidthRange
         \<or> e = PictureError
         \<or> rgb_of_hex ev bg = Inl e \<or> rgb_of_hex ev tc = Inl e \<or> rgb_of_hex ev cc = Inl e
         \<or> (border_drawn bc bw \<and> (\<exists>b. bc = Some b \<and> rgb_of_hex ev b = Inl e))"
  using assms
  by (auto simp: content_slide_def on_title_def add_slide_def new_placeholder_def
      set_background_def add_default_picture_def split: sum.splits if_splits image_file.splits
      dest!: set_text_Inr_all set_text_Inl style_runs_Inl style_runs_Inr fill_placeholder_Inl)

lemma create_ppt_Inr:
  assumes "create_ppt ev topic titles contents bg tc cc ts cs bc bw = Inr (path, prs)"
  shows "path = output_path ev topic \<and> disk_ok ev
         \<and> (\<exists>first rest. slides prs = first # rest \<and> title_slide ev topic bg tc ts = Inr first
               \<and> list_all2 (\<lambda>x s. content_slide ev bg tc cc ts cs bc bw x = Inr s)
                     (zip titles contents) rest)"
  using assms
  by (auto simp: create_ppt_def split: sum.splits if_splits dest!: for_each_Inr_D)

lemma create_ppt_Inl:
  assumes "create_ppt ev topic titles contents bg tc cc ts cs bc bw = Inl e"
  shows "e = OSError \<or> text_error e \<or> e = ValueError FontSizeRange
         \<or> e = ValueError LineWidthRange \<or> e = PictureError
         \<or> rgb_of_hex ev bg = Inl e \<or> rgb_of_hex ev tc = Inl e \<or> rgb_of_hex ev cc = Inl e
         \<or> (border_drawn bc bw \<and> (\<exists>b. bc = Some b \<and> rgb_of_hex ev b = Inl e))"
proof -
  consider "title_slide ev topic bg tc ts = Inl e"
    | x where "content_slide ev bg tc cc ts cs bc bw x = Inl e"
    | "e = OSError"
    using assms
    by (auto simp: create_ppt_def split: sum.splits if_splits dest!: for_each_Inl)
  then show ?thesis
  proof cases
    case 1
    from title_slide_Inl [OF this] show ?thesis by blast
  next
    case 2
    from content_slide_Inl [OF this] show ?thesis by blast
  next
    case 3
    then show ?thesis by simp
  qed
qed

lemma create_ppt_no_color_error:
  assumes "colors_well_formed bg tc cc bc bw"
    and "create_ppt ev topic titles contents bg tc cc ts cs bc bw = Inl e"
  shows "\<not> color_error e"
proof -
  from assms(1) have wf: "well_formed_hex bg" "well_formed_hex tc" "well_formed_hex cc"
    and bd: "border_drawn bc bw \<longrightarrow> (case bc of None \<Rightarrow> False | Some b \<Rightarrow> well_formed_hex b)"
    by (simp_all add: colors_well_formed_def)
  have "\<not> (border_drawn bc bw \<and> (\<exists>b. bc = Some b \<and> rgb_of_hex ev b = Inl e))"
  proof
    assume "border_drawn bc bw \<and> (\<exists>b. bc = Some b \<and> rgb_of_hex ev b = Inl e)"
    with bd obtain b where "well_formed_hex b" and "rgb_of_hex ev b = Inl e" by auto
    with rgb_of_hex_well_formed [of b ev] show False by auto
  qed
  with create_ppt_Inl [OF assms(2)]
    rgb_of_hex_well_formed [OF wf(1), of ev] rgb_of_hex_well_formed [OF wf(2), of ev]
    rgb_of_hex_well_formed [OF wf(3), of ev]
  show ?thesis
    by (auto simp: color_error_def text_error_def)
qed

lemma create_ppt_succeeds:
  assumes "colors_well_formed bg tc cc bc bw" and "sizes_valid ts cs bc bw"
    and "texts_compatible topic titles contents" and "default_image ev \<noteq> Damaged"
  shows "\<exists>prs. create_ppt ev topic titles contents bg tc cc ts cs bc bw =
           (if disk_ok ev then Inr (output_path ev topic, prs) else Inl OSError)"
proof -
  from assms(1) have wf: "well_formed_hex bg" "well_formed_hex tc"
    by (simp_all add: colors_well_formed_def)
  from assms(2) have sz: "1 \<le> ts" "ts \<le> 4000" by (simp_all add: sizes_valid_def)
  from assms(3) have t: "xml_compatible topic"
    and x: "\<And>x. x \<in> set (zip titles contents) \<Longrightarrow> xml_compatible (fst x) \<and> xml_compatible (snd x)"
    by (auto simp: texts_compatible_def list_all_iff)
  from title_slide_succeeds [OF wf t sz] obtain first
    where f: "title_slide ev topic bg tc ts = Inr first" by blast
  have "\<exists>rest. for_each (content_slide ev bg tc cc ts cs bc bw) (zip titles contents) = Inr rest"
  proof (rule for_each_succeeds)
    fix x assume "x \<in> set (zip titles contents)"
    from x [OF this] show "\<exists>y. content_slide ev bg tc cc ts cs bc bw x = Inr y"
      using content_slide_succeeds [OF assms(1,2) _ _ assms(4), of x] by blast
  qed
  then obtain rest
    where "for_each (content_slide ev bg tc cc ts cs bc bw) (zip titles contents) = Inr rest"
    by blast
  with f show ?thesis by (auto simp: create_ppt_def)
qed

section \<open>The deck assembler\<close>

lemma create_ppt_slides:
  assumes "create_ppt ev topic titles contents bg tc cc ts cs bc bw = Inr (path, prs)"
  shows "length (slides prs) = 1 + min (length titles) (length contents)"
    and "layout (slides prs ! 0) = 0" and "title_text (slides prs ! 0) = Some (escaped topic)"
    and "\<And>i. i < min (length titles) (length contents) \<Longrightarrow>
           title_text (slides prs ! (i + 1)) = Some (escaped (titles ! i))
           \<and> body_text (slides prs ! (i + 1)) = Some (escaped (contents ! i))"
    and "\<not> border_drawn bc bw \<Longrightarrow> \<forall>s\<in>set (slides prs). \<forall>sh\<in>set (placeholders s). outline sh = None"
proof -
  from create_ppt_Inr [OF assms] obtain first rest where
    sl: "slides prs = first # rest" and f: "title_slide ev topic bg tc ts = Inr first"
    and r: "list_all2 (\<lambda>x s. content_slide ev bg tc cc ts cs bc bw x = Inr s)
              (zip titles contents) rest"
    by blast
  from r have len: "length rest = min (length titles) (length contents)"
    by (auto dest: list_all2_lengthD)
  show "length (slides prs) = 1 + min (length titles) (length contents)"
    using sl len by simp
  from title_slide_Inr [OF f] obtain p0 where
    p0: "placeholders first = [p0, new_placeholder 1]" "ph_idx p0 = 0"
      "shape_text p0 = escaped topic" "outline p0 = None" "layout first = 0"
    by blast
  show "layout (slides prs ! 0) = 0" using sl p0 by simp
  show "title_text (slides prs ! 0) = Some (escaped topic)"
    using sl p0 by (simp add: title_text_def)
  have each: "content_slide ev bg tc cc ts cs bc bw (titles ! i, contents ! i) = Inr (rest ! i)"
    if "i < min (length titles) (length contents)" for i
    using list_all2_nthD [OF r, of i] that by simp
  show "title_text (slides prs ! (i + 1)) = Some (escaped (titles ! i))
        \<and> body_text (slides prs ! (i + 1)) = Some (escaped (contents ! i))"
    if "i < min (length titles) (length contents)" for i
    using content_slide_Inr [OF each [OF that]] sl
    by (auto simp: title_text_def body_text_def)
  show "\<forall>s\<in>set (slides prs). \<forall>sh\<in>set (placeholders s). outline sh = None"
    if nb: "\<not> border_drawn bc bw"
  proof (intro ballI)
    fix s sh assume s: "s \<in> set (slides prs)" and sh: "sh \<in> set (placeholders s)"
    show "outline sh = None"
    proof (cases "s = first")
      case True
      with sh p0 show ?thesis by (auto simp: new_placeholder_def)
    next
      case False
      with s sl have "s \<in> set rest" by simp
      then obtain i where i: "i < length rest" "rest ! i = s" by (auto simp: in_set_conv_nth)
      with len each [of i] have "content_slide ev bg tc cc ts cs bc bw (titles ! i, contents ! i) = Inr s"
        by simp
      from content_slide_Inr [OF this] nb sh show ?thesis by auto
    qed
  qed
qed

text \<open>
  C4, as the claim states it, fails: with as many contents as titles and the title
  \<open>Intro\<close> followed by a carriage return, which is what the parser cuts from a text
  with CR LF line ends, the title read back from slide 1 is \<open>Intro_x000D_\<close>.
\<close>

theorem carriage_return_title_counterexample:
  "length [str ''x''] = length [crlf_title]
   \<and> map_sum id (map title_text \<circ> slides \<circ> snd)
       (create_ppt sample_env (str ''AI'') [crlf_title] [str ''x''] white black black 30 16 None 0)
     = Inr [Some (str ''AI''), Some (str ''Intro_x000D_'')]
   \<and> str ''Intro_x000D_'' \<noteq> crlf_title"
  by (simp add: deck_defs text_defs int16_defs sample_env_def white_def black_def crlf_title_def
      str_def)

text \<open>
  C4, amended. When \<open>contents\<close> is as long as \<open>titles\<close>, the presentation \<open>create_ppt\<close>
  saves has one slide more than there are titles: slide 0 is on the title layout and its
  title is the topic, slide \<open>i + 1\<close> has \<open>titles[i]\<close> as title and \<open>contents[i]\<close> in its
  body placeholder, each text read back with its control characters other than tab, line
  feed and vertical tab written as \<open>_xHHHH_\<close>, hence unchanged when it has none. With
  well-formed colours, font sizes and border width in range, texts XML can hold, a
  default image that can be inserted if there is one, and a disk that takes the file,
  there is such a presentation.
\<close>

theorem create_ppt_deck:
  assumes "length contents = length titles"
  shows "(colors_well_formed bg_color title_color content_color border_color border_width
            \<and> sizes_valid title_size content_size border_color border_width
            \<and> texts_compatible topic titles contents
            \<and> default_image ev \<noteq> Damaged \<and> disk_ok ev \<longrightarrow>
          (\<exists>path prs. create_ppt ev topic titles contents bg_color title_color content_color
                         title_size content_size border_color border_width = Inr (path, prs)))
       \<and> (\<forall>path prs. create_ppt ev topic titles contents bg_color title_color content_color
                         title_size content_size border_color border_width = Inr (path, prs) \<longrightarrow>
            length (slides prs) = 1 + length titles
            \<and> layout (slides prs ! 0) = 0
            \<and> title_text (slides prs ! 0) = Some (escaped topic)
            \<and> (plain topic \<longrightarrow> title_text (slides prs ! 0) = Some topic)
            \<and> (\<forall>i<length titles.
                  title_text (slides prs ! (i + 1)) = Some (escaped (titles ! i))
                  \<and> body_text (slides prs ! (i + 1)) = Some (escaped (contents ! i))
                  \<and> (plain (titles ! i) \<longrightarrow> title_text (slides prs ! (i + 1)) = Some (titles ! i))
                  \<and> (plain (contents ! i) \<longrightarrow>
                        body_text (slides prs ! (i + 1)) = Some (contents ! i))))"
proof (intro conjI allI impI)
  assume "colors_well_formed bg_color title_color content_color border_color border_width
          \<and> sizes_valid title_size content_size border_color border_width
          \<and> texts_compatible topic titles contents
          \<and> default_image ev \<noteq> Damaged \<and> disk_ok ev"
  then show "\<exists>path prs. create_ppt ev topic titles contents bg_color title_color content_color
                         title_size content_size border_color border_width = Inr (path, prs)"
    using create_ppt_succeeds [of bg_color title_color content_color border_color border_width
        title_size content_size topic titles contents ev]
    by auto
next
  fix path prs
  assume r: "create_ppt ev topic titles contents bg_color title_color content_color
               title_size content_size border_color border_width = Inr (path, prs)"
  show "length (slides prs) = 1 + length titles"
    using create_ppt_slides(1) [OF r] assms by simp
  show "layout (slides prs ! 0) = 0" by (rule create_ppt_slides(2) [OF r])
  show "title_text (slides prs ! 0) = Some (escaped topic)" by (rule create_ppt_slides(3) [OF r])
  show "title_text (slides prs ! 0) = Some topic" if "plain topic"
    using create_ppt_slides(3) [OF r] that by (simp add: escaped_plain)
  fix i assume i: "i < length titles"
  then have e: "title_text (slides prs ! (i + 1)) = Some (escaped (titles ! i))
                \<and> body_text (slides prs ! (i + 1)) = Some (escaped (contents ! i))"
    using create_ppt_slides(4) [OF r, of i] assms by simp
  from e show "title_text (slides prs ! (i + 1)) = Some (escaped (titles ! i))"
    and "body_text (slides prs ! (i + 1)) = Some (escaped (contents ! i))"
    by simp_all
  from e show "title_text (slides prs ! (i + 1)) = Some (titles ! i)" if "plain (titles ! i)"
    using that by (simp add: escaped_plain)
  from e show "body_text (slides prs ! (i + 1)) = Some (contents ! i)" if "plain (contents ! i)"
    using that by (simp add: escaped_plain)
qed

theorem create_ppt_deck_witness:
  "length [str ''x'', str ''y''] = length [str ''A'', crlf_title]
   \<and> colors_well_formed white black black (Some red) 2 \<and> sizes_valid 30 16 (Some red) 2
   \<and> texts_compatible (str ''AI'') [str ''A'', crlf_title] [str ''x'', str ''y'']
   \<and> default_image sample_env \<noteq> Damaged \<and> disk_ok sample_env \<and> plain (str ''AI'') \<and> plain (str ''A'') \<and> plain (str ''x'')
   \<and> (\<exists>path prs. create_ppt sample_env (str ''AI'') [str ''A'', crlf_title]
                     [str ''x'', str ''y''] white black black 30 16 (Some red) 2
                   = Inr (path, prs)
           \<and> length (slides prs) = 3
           \<and> title_text (slides prs ! 0) = Some (str ''AI'')
           \<and> title_text (slides prs ! 1) = Some (str ''A'')
           \<and> body_text (slides prs ! 1) = Some (str ''x'')
           \<and> title_text (slides prs ! 2) = Some (str ''Intro_x000D_''))"
proof -
  have l: "length [str ''x'', str ''y''] = length [str ''A'', crlf_title]" by simp
  have c: "colors_well_formed white black black (Some red) 2 \<and> sizes_valid 30 16 (Some red) 2
           \<and> texts_compatible (str ''AI'') [str ''A'', crlf_title] [str ''x'', str ''y'']
           \<and> default_image sample_env \<noteq> Damaged \<and> disk_ok sample_env"
    by (simp add: color_defs valid_defs crlf_title_def sample_env_def)
  have p: "plain (str ''AI'')" "plain (str ''A'')" "plain (str ''x'')"
    by (simp_all add: plain_def ctrl_char_def str_def)
  have e: "escaped crlf_title = str ''Intro_x000D_''"
    by (simp add: escaped_def ctrl_char_def escape_char_def hex_upper_def crlf_title_def str_def)
  note d = create_ppt_deck [OF l, of white black black "Some red" 2 30 16 "str ''AI''" sample_env]
  from d c obtain path prs where r: "create_ppt sample_env (str ''AI'') [str ''A'', crlf_title]
      [str ''x'', str ''y''] white black black 30 16 (Some red) 2 = Inr (path, prs)"
    by blast
  note f = d [THEN conjunct2, rule_format, OF r]
  have "length (slides prs) = 3" using f by simp
  moreover have "title_text (slides prs ! 0) = Some (str ''AI'')"
    using f p(1) by (simp add: escaped_plain)
  moreover have "title_text (slides prs ! 1) = Some (str ''A'')"
    and "body_text (slides prs ! 1) = Some (str ''x'')"
    using f [THEN conjunct2, THEN conjunct2, THEN conjunct2, THEN conjunct2, rule_format, of 0]
      p(2,3) by (simp_all add: escaped_plain)
  moreover have "title_text (slides prs ! 2) = Some (str ''Intro_x000D_'')"
    using f [THEN conjunct2, THEN conjunct2, THEN conjunct2, THEN conjunct2, rule_format, of 1] e
    by (simp add: numeral_2_eq_2)
  ultimately show ?thesis using l c p r by blast
qed

lemma fill_placeholder_no_border:
  assumes "\<not> border_drawn bc bw"
  shows "fill_placeholder ev content cc cs bc bw = fill_placeholder ev content cc cs None bw"
proof
  fix sh
  show "fill_placeholder ev content cc cs bc bw sh = fill_placeholder ev content cc cs None bw sh"
    using assms
    by (simp add: fill_placeholder_def draw_border_not_drawn border_drawn_def split: sum.splits)
qed

lemma content_slide_no_border:
  assumes "\<not> border_drawn bc bw"
  shows "content_slide ev bg tc cc ts cs bc bw = content_slide ev bg tc cc ts cs None bw"
proof
  fix x
  show "content_slide ev bg tc cc ts cs bc bw x = content_slide ev bg tc cc ts cs None bw x"
    unfolding content_slide_def fill_placeholder_no_border [OF assms] ..
qed

lemma create_ppt_no_border:
  assumes "\<not> border_drawn bc bw"
  shows "create_ppt ev topic titles contents bg tc cc ts cs bc bw
           = create_ppt ev topic titles contents bg tc cc ts cs None bw"
  unfolding create_ppt_def content_slide_no_border [OF assms] ..

text \<open>
  C5. When \<open>border_width\<close> is zero or negative, the border colour is not looked at:
  \<open>create_ppt\<close> does what it does without a border colour, and no placeholder of any
  slide of the saved presentation has an outline.
\<close>

theorem no_border_without_width:
  assumes "border_width \<le> 0"
  shows "create_ppt ev topic titles contents bg_color title_color content_color title_size
             content_size border_color border_width
           = create_ppt ev topic titles contents bg_color title_color content_color title_size
               content_size None border_width
         \<and> (\<forall>path prs. create_ppt ev topic titles contents bg_color title_color content_color
                          title_size content_size border_color border_width = Inr (path, prs) \<longrightarrow>
               (\<forall>s\<in>set (slides prs). \<forall>sh\<in>set (placeholders s). outline sh = None))"
proof -
  from assms have nb: "\<not> border_drawn border_color border_width"
    by (simp add: border_drawn_def)
  show ?thesis
  proof (intro conjI allI impI)
    show "create_ppt ev topic titles contents bg_color title_color content_color title_size
             content_size border_color border_width
           = create_ppt ev topic titles contents bg_color title_color content_color title_size
               content_size None border_width"
      by (rule create_ppt_no_border [OF nb])
  next
    fix path prs
    assume "create_ppt ev topic titles contents bg_color title_color content_color
              title_size content_size border_color border_width = Inr (path, prs)"
    then show "\<forall>s\<in>set (slides prs). \<forall>sh\<in>set (placeholders s). outline sh = None"
      using nb by (rule create_ppt_slides(5))
  qed
qed

theorem no_border_without_width_witness:
  "(0::int) \<le> 0
   \<and> (\<exists>prs. create_ppt sample_env (str ''AI'') [str ''A''] [str ''x''] white black black 30 16
               (Some red) 0 = Inr (str ''generated_ppt/AI_presentation.pptx'', prs)
           \<and> map (map outline \<circ> placeholders) (slides prs) = [[None, None], [None, None]])
   \<and> create_ppt sample_env (str ''AI'') [str ''A''] [str ''x''] white black black 30 16
        (Some (str ''no colour'')) 0
       = create_ppt sample_env (str ''AI'') [str ''A''] [str ''x''] white black black 30 16 None 0"
proof -
  have z: "(0::int) \<le> 0" by simp
  have "\<exists>prs. create_ppt sample_env (str ''AI'') [str ''A''] [str ''x''] white black black 30 16
               (Some red) 0 = Inr (str ''generated_ppt/AI_presentation.pptx'', prs)
           \<and> map (map outline \<circ> placeholders) (slides prs) = [[None, None], [None, None]]"
    by (simp add: deck_defs text_defs int16_defs sample_env_def white_def black_def red_def str_def)
  with no_border_without_width [OF z, of sample_env "str ''AI''" "[str ''A'']" "[str ''x'']"
      white black black 30 16 "Some (str ''no colour'')"]
  show ?thesis by simp
qed

text \<open>
  C6. The path \<open>create_ppt\<close> returns is \<open>generated_ppt/\<close>, then the characters of the
  topic that are alphanumeric, a space, an underscore or a hyphen, in their order, then
  \<open>_presentation.pptx\<close>. It depends on the topic alone: two calls with the same topic
  return the same path, whatever their other arguments. The topic \<open>AI/ML: 2024!\<close> is
  sanitized to \<open>AIML 2024\<close>.
\<close>

theorem output_path_sanitized:
  "(\<forall>path prs. create_ppt ev topic titles contents bg_color title_color content_color title_size
                   content_size border_color border_width = Inr (path, prs) \<longrightarrow>
        path = str ''generated_ppt/''
               @ filter (\<lambda>c. isalnum ev c \<or> c = 32 \<or> c = 95 \<or> c = 45) topic
               @ str ''_presentation.pptx'')
   \<and> (\<forall>path prs path' prs'.
         create_ppt ev topic titles contents bg_color title_color content_color title_size
             content_size border_color border_width = Inr (path, prs)
         \<and> create_ppt ev topic titles' contents' bg_color' title_color' content_color' title_size'
             content_size' border_color' border_width' = Inr (path', prs')
         \<longrightarrow> path' = path)
   \<and> safe_topic ev (str ''AI/ML: 2024!'') = str ''AIML 2024''"
proof (intro conjI allI impI)
  fix path prs
  assume "create_ppt ev topic titles contents bg_color title_color content_color title_size
            content_size border_color border_width = Inr (path, prs)"
  from create_ppt_Inr [OF this]
  show "path = str ''generated_ppt/''
               @ filter (\<lambda>c. isalnum ev c \<or> c = 32 \<or> c = 95 \<or> c = 45) topic
               @ str ''_presentation.pptx''"
    by (simp add: output_path_def safe_topic_def)
next
  fix path prs path' prs'
  assume "create_ppt ev topic titles contents bg_color title_color content_color title_size
             content_size border_color border_width = Inr (path, prs)
         \<and> create_ppt ev topic titles' contents' bg_color' title_color' content_color' title_size'
             content_size' border_color' border_width' = Inr (path', prs')"
  then show "path' = path"
    by (auto dest!: create_ppt_Inr)
next
  show "safe_topic ev (str ''AI/ML: 2024!'') = str ''AIML 2024''"
    by (simp add: safe_topic_def isalnum_def str_def)
qed

theorem output_path_sanitized_witness:
  "(\<exists>prs. create_ppt sample_env (str ''AI/ML: 2024!'') [] [] white black black 30 16 None 0
             = Inr (str ''generated_ppt/AIML 2024_presentation.pptx'', prs))
   \<and> (\<exists>prs. create_ppt sample_env (str ''AI/ML: 2024!'') [str ''A''] [str ''x''] black white
               white 20 10 (Some red) 1
             = Inr (str ''generated_ppt/AIML 2024_presentation.pptx'', prs))"
proof -
  have c1: "colors_well_formed white black black None 0"
    and c2: "colors_well_formed black white white (Some red) 1"
    by (simp_all add: color_defs)
  have d: "disk_ok sample_env" and im: "default_image sample_env \<noteq> Damaged"
    by (simp_all add: sample_env_def)
  have v1: "sizes_valid 30 16 None 0" and v2: "sizes_valid 20 10 (Some red) 1"
    by (simp_all add: valid_defs)
  have x1: "texts_compatible (str ''AI/ML: 2024!'') [] []"
    and x2: "texts_compatible (str ''AI/ML: 2024!'') [str ''A''] [str ''x'']"
    by (simp_all add: valid_defs)
  have f: "filter (\<lambda>c. isalnum sample_env c \<or> c = 32 \<or> c = 95 \<or> c = 45) (str ''AI/ML: 2024!'')
             = str ''AIML 2024''"
    by (simp add: isalnum_def str_def)
  from create_ppt_succeeds [OF c1 v1 x1 im] d
  obtain p1 d1 where 1: "create_ppt sample_env (str ''AI/ML: 2024!'') [] [] white black
      black 30 16 None 0 = Inr (p1, d1)" by auto
  from create_ppt_succeeds [OF c2 v2 x2 im] d
  obtain p2 d2 where 2: "create_ppt sample_env (str ''AI/ML: 2024!'') [str ''A'']
      [str ''x''] black white white 20 10 (Some red) 1 = Inr (p2, d2)" by auto
  note p = output_path_sanitized [THEN conjunct1, rule_format]
  have "p1 = str ''generated_ppt/'' @ str ''AIML 2024'' @ str ''_presentation.pptx''"
    using p [OF 1] by (simp only: f)
  then have p1: "p1 = str ''generated_ppt/AIML 2024_presentation.pptx''" by (simp add: str_def)
  have "p2 = str ''generated_ppt/'' @ str ''AIML 2024'' @ str ''_presentation.pptx''"
    using p [OF 2] by (simp only: f)
  then have p2: "p2 = str ''generated_ppt/AIML 2024_presentation.pptx''" by (simp add: str_def)
  show ?thesis using 1 2 p1 p2 by simp
qed

lemma zip_take_min:
  "zip (take (min (length xs) (length ys)) xs) (take (min (length xs) (length ys)) ys) = zip xs ys"
  by (induction xs ys rule: list_induct2') auto

text \<open>
  C8. When the colours of a call are well formed, every conversion of a colour to RGB
  succeeds, and whatever the other arguments are, \<open>create_ppt\<close> raises neither the
  ValueError of \<open>int\<close> nor that of \<open>RGBColor\<close>. When moreover font sizes and border width
  are in range, XML can hold the texts and the default image, if there is one, can be
  inserted, it saves a presentation under the output path, or fails with the error of
  the disk.
\<close>

theorem well_formed_colors_parse:
  assumes "colors_well_formed bg_color title_color content_color border_color border_width"
  shows "(\<exists>v. rgb_of_hex ev bg_color = Inr v)
       \<and> (\<exists>v. rgb_of_hex ev title_color = Inr v)
       \<and> (\<exists>v. rgb_of_hex ev content_color = Inr v)
       \<and> (border_drawn border_color border_width \<longrightarrow>
            (\<exists>bc v. border_color = Some bc \<and> rgb_of_hex ev bc = Inr v))
       \<and> create_ppt ev topic titles contents bg_color title_color content_color title_size
             content_size border_color border_width \<noteq> Inl (ValueError InvalidLiteral)
       \<and> create_ppt ev topic titles contents bg_color title_color content_color title_size
             content_size border_color border_width \<noteq> Inl (ValueError RGBRange)
       \<and> (sizes_valid title_size content_size border_color border_width
            \<and> texts_compatible topic titles contents
            \<and> default_image ev \<noteq> Damaged \<longrightarrow>
           (\<exists>prs. create_ppt ev topic titles contents bg_color title_color content_color
                      title_size content_size border_color border_width
                    = (if disk_ok ev then Inr (output_path ev topic, prs) else Inl OSError)))"
proof -
  from assms have wf: "well_formed_hex bg_color" "well_formed_hex title_color"
      "well_formed_hex content_color"
    and bd: "border_drawn border_color border_width \<longrightarrow>
               (case border_color of None \<Rightarrow> False | Some bc \<Rightarrow> well_formed_hex bc)"
    by (simp_all add: colors_well_formed_def)
  have b: "border_drawn border_color border_width \<longrightarrow>
          (\<exists>bc v. border_color = Some bc \<and> rgb_of_hex ev bc = Inr v)"
    using bd rgb_of_hex_well_formed [of _ ev] by (auto split: option.splits)
  have n: "create_ppt ev topic titles contents bg_color title_color content_color title_size
             content_size border_color border_width \<noteq> Inl e" if "color_error e" for e
    using create_ppt_no_color_error [OF assms, of ev topic titles contents title_size
        content_size e] that
    by blast
  have s: "sizes_valid title_size content_size border_color border_width
            \<and> texts_compatible topic titles contents
            \<and> default_image ev \<noteq> Damaged \<longrightarrow>
           (\<exists>prs. create_ppt ev topic titles contents bg_color title_color content_color
                      title_size content_size border_color border_width
                    = (if disk_ok ev then Inr (output_path ev topic, prs) else Inl OSError))"
    using create_ppt_succeeds [OF assms, of title_size content_size topic titles contents ev]
    by blast
  show ?thesis
    using rgb_of_hex_well_formed [OF wf(1), of ev] rgb_of_hex_well_formed [OF wf(2), of ev]
      rgb_of_hex_well_formed [OF wf(3), of ev] b s
      n [of "ValueError InvalidLiteral"] n [of "ValueError RGBRange"]
    by (simp add: color_error_def)
qed

theorem well_formed_colors_parse_witness:
  "colors_well_formed white black red (Some red) 2
   \<and> rgb_of_hex sample_env white = Inr (255, 255, 255)
   \<and> rgb_of_hex sample_env red = Inr (255, 0, 0)
   \<and> sizes_valid 30 16 (Some red) 2 \<and> texts_compatible (str ''AI'') [str ''A''] [str ''x'']
   \<and> create_ppt sample_env (str ''AI'') [str ''A''] [str ''x''] white black red 0 16 (Some red) 2
       = Inl (ValueError FontSizeRange)
   \<and> create_ppt sample_env (str ''AI'') [str ''A''] [str ''x''] white black red 0 16 (Some red) 2
       \<noteq> Inl (ValueError InvalidLiteral)
   \<and> (\<exists>prs. create_ppt sample_env (str ''AI'') [str ''A''] [str ''x''] white black red 30 16
               (Some red) 2 = Inr (str ''generated_ppt/AI_presentation.pptx'', prs))
   \<and> create_ppt (sample_env\<lparr>disk_ok := False\<rparr>) (str ''AI'') [str ''A''] [str ''x''] white black
        red 30 16 (Some red) 2 = Inl OSError"
proof -
  have c: "colors_well_formed white black red (Some red) 2" by (simp add: color_defs)
  have v: "rgb_of_hex sample_env white = Inr (255, 255, 255)"
      "rgb_of_hex sample_env red = Inr (255, 0, 0)"
    by (simp_all add: int16_defs white_def red_def str_def)
  have sv: "sizes_valid 30 16 (Some red) 2 \<and> texts_compatible (str ''AI'') [str ''A''] [str ''x'']"
    by (simp add: valid_defs red_def)
  have im: "default_image sample_env \<noteq> Damaged"
    "default_image (sample_env\<lparr>disk_ok := False\<rparr>) \<noteq> Damaged"
    by (simp_all add: sample_env_def)
  have z: "create_ppt sample_env (str ''AI'') [str ''A''] [str ''x''] white black red 0 16
      (Some red) 2 = Inl (ValueError FontSizeRange)"
    by (simp add: deck_defs text_defs int16_defs sample_env_def white_def black_def red_def
        str_def)
  have o: "output_path sample_env (str ''AI'') = str ''generated_ppt/AI_presentation.pptx''"
    by (simp add: output_path_def safe_topic_def isalnum_def str_def)
  from well_formed_colors_parse [OF c, of sample_env "str ''AI''" "[str ''A'']" "[str ''x'']" 0 16]
  have n: "create_ppt sample_env (str ''AI'') [str ''A''] [str ''x''] white black red 0 16
          (Some red) 2 \<noteq> Inl (ValueError InvalidLiteral)"
    by blast
  from well_formed_colors_parse [OF c, of sample_env "str ''AI''" "[str ''A'']" "[str ''x'']" 30 16]
    sv o im
  have g: "\<exists>prs. create_ppt sample_env (str ''AI'') [str ''A''] [str ''x''] white black red 30 16
               (Some red) 2 = Inr (str ''generated_ppt/AI_presentation.pptx'', prs)"
    by (simp add: sample_env_def)
  from well_formed_colors_parse [OF c, of "sample_env\<lparr>disk_ok := False\<rparr>" "str ''AI''"
      "[str ''A'']" "[str ''x'']" 30 16] sv im
  have "create_ppt (sample_env\<lparr>disk_ok := False\<rparr>) (str ''AI'') [str ''A''] [str ''x''] white
          black red 30 16 (Some red) 2 = Inl OSError"
    by simp
  with c v sv z n g show ?thesis by simp
qed

text \<open>
  C9. With \<open>titles\<close> and \<open>contents\<close> of any lengths, \<open>create_ppt\<close> does what it does on
  both lists cut to the shorter length, so a difference in length raises nothing; with
  well-formed colours, sizes in range, texts XML can hold, a default image that can be
  inserted if there is one, and a disk that takes the file, it saves a presentation. The saved presentation has one slide more than the shorter
  list has elements, and slide \<open>i + 1\<close> holds title \<open>i\<close> and content \<open>i\<close>, read back
  with their control characters escaped.
\<close>

theorem create_ppt_unequal_lengths:
  "create_ppt ev topic titles contents bg_color title_color content_color title_size
       content_size border_color border_width
     = create_ppt ev topic (take (min (length titles) (length contents)) titles)
         (take (min (length titles) (length contents)) contents)
         bg_color title_color content_color title_size content_size border_color border_width
   \<and> (colors_well_formed bg_color title_color content_color border_color border_width
        \<and> sizes_valid title_size content_size border_color border_width
        \<and> texts_compatible topic titles contents
        \<and> default_image ev \<noteq> Damaged \<and> disk_ok ev \<longrightarrow>
       (\<exists>path prs. create_ppt ev topic titles contents bg_color title_color content_color
                      title_size content_size border_color border_width = Inr (path, prs)))
   \<and> (\<forall>path prs. create_ppt ev topic titles contents bg_color title_color content_color
                     title_size content_size border_color border_width = Inr (path, prs) \<longrightarrow>
         length (slides prs) = 1 + min (length titles) (length contents)
         \<and> (\<forall>i<min (length titles) (length contents).
               title_text (slides prs ! (i + 1)) = Some (escaped (titles ! i))
               \<and> body_text (slides prs ! (i + 1)) = Some (escaped (contents ! i))))"
proof (intro conjI allI impI)
  show "create_ppt ev topic titles contents bg_color title_color content_color title_size
       content_size border_color border_width
     = create_ppt ev topic (take (min (length titles) (length contents)) titles)
         (take (min (length titles) (length contents)) contents)
         bg_color title_color content_color title_size content_size border_color border_width"
    unfolding create_ppt_def zip_take_min ..
next
  assume "colors_well_formed bg_color title_color content_color border_color border_width
          \<and> sizes_valid title_size content_size border_color border_width
          \<and> texts_compatible topic titles contents
          \<and> default_image ev \<noteq> Damaged \<and> disk_ok ev"
  then show "\<exists>path prs. create_ppt ev topic titles contents bg_color title_color content_color
                         title_size content_size border_color border_width = Inr (path, prs)"
    using create_ppt_succeeds [of bg_color title_color content_color border_color border_width
        title_size content_size topic titles contents ev]
    by auto
next
  fix path prs
  assume r: "create_ppt ev topic titles contents bg_color title_color content_color
               title_size content_size border_color border_width = Inr (path, prs)"
  show "length (slides prs) = 1 + min (length titles) (length contents)"
    by (rule create_ppt_slides(1) [OF r])
  fix i assume "i < min (length titles) (length contents)"
  then show "title_text (slides prs ! (i + 1)) = Some (escaped (titles ! i))"
    and "body_text (slides prs ! (i + 1)) = Some (escaped (contents ! i))"
    using create_ppt_slides(4) [OF r, of i] by simp_all
qed

theorem create_ppt_unequal_lengths_witness:
  "colors_well_formed white black black None 0 \<and> sizes_valid 30 16 None 0
   \<and> texts_compatible (str ''AI'') [str ''A'', str ''B'', str ''C''] [str ''x'']
   \<and> default_image sample_env \<noteq> Damaged \<and> disk_ok sample_env
   \<and> create_ppt sample_env (str ''AI'') [str ''A'', str ''B'', str ''C''] [str ''x'']
        white black black 30 16 None 0
      = create_ppt sample_env (str ''AI'') [str ''A''] [str ''x''] white black black 30 16 None 0
   \<and> (\<exists>path prs. create_ppt sample_env (str ''AI'') [str ''A'', str ''B'', str ''C'']
                     [str ''x''] white black black 30 16 None 0 = Inr (path, prs)
           \<and> length (slides prs) = 2
           \<and> title_text (slides prs ! 1) = Some (str ''A'')
           \<and> body_text (slides prs ! 1) = Some (str ''x''))"
proof -
  have c: "colors_well_formed white black black None 0 \<and> sizes_valid 30 16 None 0
           \<and> texts_compatible (str ''AI'') [str ''A'', str ''B'', str ''C''] [str ''x'']
           \<and> default_image sample_env \<noteq> Damaged \<and> disk_ok sample_env"
    by (simp add: color_defs valid_defs sample_env_def)
  have e: "escaped (str ''A'') = str ''A''" "escaped (str ''x'') = str ''x''"
    by (simp_all add: escaped_def ctrl_char_def str_def)
  note u = create_ppt_unequal_lengths [of sample_env "str ''AI''" "[str ''A'', str ''B'', str ''C'']"
      "[str ''x'']" white black black 30 16 None 0]
  from u have t: "create_ppt sample_env (str ''AI'') [str ''A'', str ''B'', str ''C'']
      [str ''x''] white black black 30 16 None 0
      = create_ppt sample_env (str ''AI'') [str ''A''] [str ''x''] white black black 30 16 None 0"
    by simp
  from u c obtain path prs where r: "create_ppt sample_env (str ''AI'')
      [str ''A'', str ''B'', str ''C''] [str ''x''] white black black 30 16 None 0
        = Inr (path, prs)"
    by blast
  note f = u [THEN conjunct2, THEN conjunct2, rule_format, OF r]
  have "length (slides prs) = 2" using f by simp
  moreover have "title_text (slides prs ! 1) = Some (str ''A'')"
    and "body_text (slides prs ! 1) = Some (str ''x'')"
    using f [THEN conjunct2, rule_format, of 0] e by simp_all
  ultimately show ?thesis using c t r by blast
qed

section \<open>The pipeline\<close>

lemma generate_contents_total:
  "\<exists>ms cs. generate_contents pr n key ts = (ms, Inr cs) \<and> length cs = length ts"
proof (induction ts arbitrary: n)
  case Nil
  show ?case by simp
next
  case (Cons t ts)
  from Cons [of "n + 1"] obtain ms cs
    where r: "generate_contents pr (n + 1) key ts = (ms, Inr cs)" "length cs = length ts"
    by blast
  obtain m c where "generate_slide_content pr n t key = (m, Inr c)"
    by (cases "content_body pr n t key") (auto simp: generate_slide_content_def)
  with r show ?case by simp
qed

text \<open>
  C7. After the button is pressed with a topic: when \<open>generate_slide_titles\<close> returns the
  empty list, \<open>main\<close> shows the error about the titles last and ends without a file.
  When it returns titles, every content is generated without an exception, be it the
  sentinel, and \<open>main\<close> ends as the call of \<open>create_ppt\<close> on these titles and contents
  ends; with well-formed colours, sizes in range, texts XML can hold, a default image
  that can be inserted if there is one, and a disk that takes the file, that is with
  the file saved, one content slide per title, each body holding the content generated
  for it.
\<close>

theorem main_titles_gate:
  assumes "button fm" and "topic_input fm \<noteq> []"
  shows "(snd (generate_slide_titles pr 0 (topic_input fm) (Some (key_input fm))) = Inr [] \<longrightarrow>
            snd (main ev pr fm) = Inr None \<and> last (fst (main ev pr fm)) = Error_titles_failed)
       \<and> (\<forall>titles.
             snd (generate_slide_titles pr 0 (topic_input fm) (Some (key_input fm))) = Inr titles
             \<and> titles \<noteq> [] \<longrightarrow>
             (\<exists>contents.
                snd (generate_contents pr 3 (Some (key_input fm)) titles) = Inr contents
                \<and> length contents = length titles
                \<and> snd (main ev pr fm)
                    = map_sum id Some
                        (create_ppt ev (topic_input fm) titles contents (bg_color_input fm)
                           (title_color_input fm) (content_color_input fm) (title_size_input fm)
                           (content_size_input fm) (Some (border_color_input fm))
                           (border_width_input fm))
                \<and> (colors_well_formed (bg_color_input fm) (title_color_input fm)
                       (content_color_input fm) (Some (border_color_input fm))
                       (border_width_input fm)
                     \<and> sizes_valid (title_size_input fm) (content_size_input fm)
                         (Some (border_color_input fm)) (border_width_input fm)
                     \<and> texts_compatible (topic_input fm) titles contents
                     \<and> default_image ev \<noteq> Damaged \<and> disk_ok ev \<longrightarrow>
                    (\<exists>prs. snd (main ev pr fm) = Inr (Some (output_path ev (topic_input fm), prs))
                       \<and> length (slides prs) = 1 + length titles
                       \<and> (\<forall>i<length titles.
                             body_text (slides prs ! (i + 1)) = Some (escaped (contents ! i)))))))"
proof (intro conjI allI impI)
  assume e: "snd (generate_slide_titles pr 0 (topic_input fm) (Some (key_input fm))) = Inr []"
  then obtain ms where "generate_slide_titles pr 0 (topic_input fm) (Some (key_input fm))
      = (ms, Inr [])"
    by (metis prod.collapse)
  with assms show "snd (main ev pr fm) = Inr None"
    and "last (fst (main ev pr fm)) = Error_titles_failed"
    by (simp_all add: main_def)
next
  fix titles
  assume h: "snd (generate_slide_titles pr 0 (topic_input fm) (Some (key_input fm))) = Inr titles
             \<and> titles \<noteq> []"
  then obtain ms where t: "generate_slide_titles pr 0 (topic_input fm) (Some (key_input fm))
      = (ms, Inr titles)"
    by (metis prod.collapse)
  from h have ne: "titles \<noteq> []" by simp
  from generate_contents_total [of pr 3 "Some (key_input fm)" titles] obtain ms' contents
    where c: "generate_contents pr 3 (Some (key_input fm)) titles = (ms', Inr contents)"
      and len: "length contents = length titles"
    by blast
  let ?call = "create_ppt ev (topic_input fm) titles contents (bg_color_input fm)
      (title_color_input fm) (content_color_input fm) (title_size_input fm)
      (content_size_input fm) (Some (border_color_input fm)) (border_width_input fm)"
  have m: "snd (main ev pr fm) = map_sum id Some ?call"
    using assms t c ne by (cases ?call) (auto simp: main_def)
  have p: "\<exists>prs. snd (main ev pr fm) = Inr (Some (output_path ev (topic_input fm), prs))
                       \<and> length (slides prs) = 1 + length titles
                       \<and> (\<forall>i<length titles.
                             body_text (slides prs ! (i + 1)) = Some (escaped (contents ! i)))"
    if v: "colors_well_formed (bg_color_input fm) (title_color_input fm)
                       (content_color_input fm) (Some (border_color_input fm))
                       (border_width_input fm)
                     \<and> sizes_valid (title_size_input fm) (content_size_input fm)
                         (Some (border_color_input fm)) (border_width_input fm)
                     \<and> texts_compatible (topic_input fm) titles contents
                     \<and> default_image ev \<noteq> Damaged \<and> disk_ok ev"
  proof -
    from v create_ppt_succeeds [of "bg_color_input fm" "title_color_input fm"
        "content_color_input fm" "Some (border_color_input fm)" "border_width_input fm"
        "title_size_input fm" "content_size_input fm" "topic_input fm" titles contents ev]
    obtain prs where r: "?call = Inr (output_path ev (topic_input fm), prs)" by auto
    have "length (slides prs) = 1 + length titles"
      using create_ppt_slides(1) [OF r] len by simp
    moreover have "\<forall>i<length titles.
        body_text (slides prs ! (i + 1)) = Some (escaped (contents ! i))"
      using create_ppt_slides(4) [OF r] len by simp
    ultimately show ?thesis using m r by simp
  qed
  from c len m p
  show "\<exists>contents.
                snd (generate_contents pr 3 (Some (key_input fm)) titles) = Inr contents
                \<and> length contents = length titles
                \<and> snd (main ev pr fm)
                    = map_sum id Some
                        (create_ppt ev (topic_input fm) titles contents (bg_color_input fm)
                           (title_color_input fm) (content_color_input fm) (title_size_input fm)
                           (content_size_input fm) (Some (border_color_input fm))
                           (border_width_input fm))
                \<and> (colors_well_formed (bg_color_input fm) (title_color_input fm)
                       (content_color_input fm) (Some (border_color_input fm))
                       (border_width_input fm)
                     \<and> sizes_valid (title_size_input fm) (content_size_input fm)
                         (Some (border_color_input fm)) (border_width_input fm)
                     \<and> texts_compatible (topic_input fm) titles contents
                     \<and> default_image ev \<noteq> Damaged \<and> disk_ok ev \<longrightarrow>
                    (\<exists>prs. snd (main ev pr fm) = Inr (Some (output_path ev (topic_input fm), prs))
                       \<and> length (slides prs) = 1 + length titles
                       \<and> (\<forall>i<length titles.
                             body_text (slides prs ! (i + 1)) = Some (escaped (contents ! i)))))"
    by (intro exI [of _ contents]) simp
qed

theorem main_titles_gate_witness:
  "button sample_form \<and> topic_input sample_form \<noteq> []
   \<and> snd (generate_slide_titles silent_providers 0 (topic_input sample_form)
            (Some (key_input sample_form))) = Inr []
   \<and> main sample_env silent_providers sample_form
       = ([Info_generating, Warn_no_titles, Error_titles_failed], Inr None)
   \<and> snd (generate_slide_titles titles_only_providers 0 (topic_input sample_form)
            (Some (key_input sample_form))) = Inr [str ''A'', str ''B'']
   \<and> snd (generate_contents titles_only_providers 3 (Some (key_input sample_form))
            [str ''A'', str ''B'']) = Inr [sentinel, sentinel]
   \<and> (\<exists>prs. snd (main sample_env titles_only_providers sample_form)
               = Inr (Some (str ''generated_ppt/AI_presentation.pptx'', prs))
           \<and> length (slides prs) = 3
           \<and> body_text (slides prs ! 1) = Some sentinel
           \<and> body_text (slides prs ! 2) = Some sentinel)"
proof -
  have b: "button sample_form" and t: "topic_input sample_form \<noteq> []"
    by (simp_all add: sample_form_def str_def)
  have k: "sample_key \<noteq> []" by (simp add: sample_key_def str_def)
  have pe: "parse_titles [] = []"
    by (simp add: parse_titles_def string_defs)
  have e: "snd (generate_slide_titles silent_providers 0 (topic_input sample_form)
            (Some (key_input sample_form))) = Inr []"
    using k pe
    by (simp add: sample_form_def silent_providers_def hosted_titles_def fallback_titles_def)
  have m0: "main sample_env silent_providers sample_form
       = ([Info_generating, Warn_no_titles, Error_titles_failed], Inr None)"
    using k pe
    by (simp add: main_def sample_form_def silent_providers_def hosted_titles_def
        fallback_titles_def str_def)
  have p: "parse_titles (str ''1. A'' @ [NL] @ str ''2. B'') = [str ''A'', str ''B'']"
    by (simp add: parse_titles_def string_defs)
  have ts: "snd (generate_slide_titles titles_only_providers 0 (topic_input sample_form)
            (Some (key_input sample_form))) = Inr [str ''A'', str ''B'']"
    using k p by (simp add: sample_form_def titles_only_providers_def hosted_titles_def str_def)
  have cs: "snd (generate_contents titles_only_providers 3 (Some (key_input sample_form))
            [str ''A'', str ''B'']) = Inr [sentinel, sentinel]"
    using k
    by (simp add: sample_form_def titles_only_providers_def generate_slide_content_def)
  have wf: "colors_well_formed (bg_color_input sample_form) (title_color_input sample_form)
      (content_color_input sample_form) (Some (border_color_input sample_form))
      (border_width_input sample_form)
    \<and> sizes_valid (title_size_input sample_form) (content_size_input sample_form)
        (Some (border_color_input sample_form)) (border_width_input sample_form)
    \<and> texts_compatible (topic_input sample_form) [str ''A'', str ''B''] [sentinel, sentinel]
    \<and> default_image sample_env \<noteq> Damaged \<and> disk_ok sample_env"
    by (simp add: sample_form_def sample_env_def color_defs valid_defs sentinel_def)
  have o: "output_path sample_env (topic_input sample_form)
             = str ''generated_ppt/AI_presentation.pptx''"
    by (simp add: output_path_def safe_topic_def isalnum_def sample_form_def str_def)
  have es: "escaped sentinel = sentinel"
    by (simp add: escaped_def ctrl_char_def sentinel_def str_def)
  from main_titles_gate [OF b t, of titles_only_providers sample_env, THEN conjunct2,
      rule_format, of "[str ''A'', str ''B'']"] ts
  obtain contents where
    r: "snd (generate_contents titles_only_providers 3 (Some (key_input sample_form))
            [str ''A'', str ''B'']) = Inr contents"
    and q: "colors_well_formed (bg_color_input sample_form) (title_color_input sample_form)
        (content_color_input sample_form) (Some (border_color_input sample_form))
        (border_width_input sample_form)
      \<and> sizes_valid (title_size_input sample_form) (content_size_input sample_form)
          (Some (border_color_input sample_form)) (border_width_input sample_form)
      \<and> texts_compatible (topic_input sample_form) [str ''A'', str ''B''] contents
      \<and> default_image sample_env \<noteq> Damaged \<and> disk_ok sample_env \<longrightarrow>
      (\<exists>prs. snd (main sample_env titles_only_providers sample_form)
                = Inr (Some (output_path sample_env (topic_input sample_form), prs))
         \<and> length (slides prs) = 1 + length [str ''A'', str ''B'']
         \<and> (\<forall>i<length [str ''A'', str ''B''].
               body_text (slides prs ! (i + 1)) = Some (escaped (contents ! i))))"
    by auto
  from r cs have c: "contents = [sentinel, sentinel]" by simp
  from q wf c obtain prs where
    g: "snd (main sample_env titles_only_providers sample_form)
          = Inr (Some (output_path sample_env (topic_input sample_form), prs))"
      "length (slides prs) = 1 + length [str ''A'', str ''B'']"
      "\<forall>i<length [str ''A'', str ''B''].
         body_text (slides prs ! (i + 1)) = Some (escaped ([sentinel, sentinel] ! i))"
    by auto
  from g(3) [rule_format, of 0] g(3) [rule_format, of 1] es
  have "body_text (slides prs ! 1) = Some sentinel"
    and "body_text (slides prs ! 2) = Some sentinel"
    by (simp_all add: numeral_2_eq_2)
  with b t e m0 ts cs g(1,2) o show ?thesis by auto
qed

end
